theory Spec2Isabelle
  imports Complex_Main "HOL-Library.Multiset"
begin

section \<open>Shared data model\<close>

text \<open>
  Python exceptions are values. A \<open>ValueError\<close> carries the text of its message, so
  that the bare \<^verbatim>\<open>raise ValueError\<close> of the over-sampler (empty message) is told
  apart from the ones the random source raises.
\<close>

datatype error =
    ValueError string
  | IndexError
  | KeyError
  | ZeroDivisionError
  | UnboundLocalError

text \<open>
  Arrays are lists of rows together with their storage class: a dense \<open>ndarray\<close> or one
  of the two sparse formats the samplers accept.
\<close>

datatype storage = ndarray | csr | csc

record 'a arr =
  storage :: storage
  rows :: "'a list"

definition issparse :: "'a arr \<Rightarrow> bool" where
  "issparse a = (storage a \<noteq> ndarray)"

definition toarray :: "'a arr \<Rightarrow> 'a arr" where
  "toarray a = a\<lparr>storage := ndarray\<rparr>"

text \<open>
  The random source (\<open>numpy.random.RandomState\<close>) is a pair of tapes: the raw integer
  draws and the standard-normal draws still to come. Drawing reads a prefix of a tape and
  moves it on. Every run of the library generator is the run of some pair of tapes, so a
  statement about all tapes is a statement about all seeds.
\<close>

record rng =
  ints :: "nat \<Rightarrow> nat"
  normals :: "nat \<Rightarrow> real"

definition randint :: "rng \<Rightarrow> nat \<Rightarrow> nat \<Rightarrow> nat list \<times> rng" where
  \<comment> \<open>\<open>randint(0, high, size=n)\<close> for \<open>0 < high\<close>: \<open>n\<close> draws below \<open>high\<close>\<close>
  "randint g high n =
     (map (\<lambda>j. ints g j mod high) [0..<n], g\<lparr>ints := \<lambda>j. ints g (j + n)\<rparr>)"

fun shuffle_from :: "nat \<Rightarrow> rng \<Rightarrow> 'a list \<Rightarrow> 'a list \<times> rng" where
  "shuffle_from 0 g xs = (xs, g)"
| "shuffle_from (Suc i) g xs =
     (let (js, g') = randint g (Suc (Suc i)) 1;
          j = js ! 0
      in shuffle_from i g' (xs[Suc i := xs ! j, j := xs ! Suc i]))"

definition shuffle :: "rng \<Rightarrow> 'a list \<Rightarrow> 'a list \<times> rng" where
  \<comment> \<open>\<open>random_state.shuffle\<close>: exchanges position \<open>i\<close>, from the last one down to 1,
      with a drawn position \<open>j \<le> i\<close>\<close>
  "shuffle g xs = shuffle_from (length xs - 1) g xs"

definition safe_indexing :: "'a arr \<Rightarrow> nat list \<Rightarrow> error + 'a arr" where
  \<comment> \<open>\<open>X[indices]\<close>: rows picked by an index array, \<open>IndexError\<close> out of bounds\<close>
  "safe_indexing a idx =
     (if \<forall>i \<in> set idx. i < length (rows a)
      then Inr (a\<lparr>rows := map (\<lambda>i. rows a ! i) idx\<rparr>)
      else Inl IndexError)"

definition clamp_index :: "nat \<Rightarrow> int \<Rightarrow> nat" where
  \<comment> \<open>a slice bound: a negative bound counts from the end, then it is clipped to
      \<open>0 .. n\<close>\<close>
  "clamp_index n i =
     (if i < 0 then (if i + int n < 0 then 0 else nat (i + int n))
      else if int n < i then n else nat i)"

definition py_slice :: "'a list \<Rightarrow> int \<Rightarrow> int \<Rightarrow> 'a list" where
  \<comment> \<open>\<open>xs[start:stop]\<close>\<close>
  "py_slice xs start stop =
     (let lo = clamp_index (length xs) start;
          hi = clamp_index (length xs) stop
      in take (hi - lo) (drop lo xs))"

section \<open>The batch generator (\<open>imblearn/keras/_generator.py\<close>)\<close>

text \<open>
  The sampler handed to the generator is code outside this development: it is a
  parameter, a function from the random source and the data to the selected indices.
  \<open>has_return_indices\<close> is the outcome of \<^verbatim>\<open>hasattr(sampler, 'return_indices')\<close>.
\<close>

record ('x, 'y) sampler =
  has_return_indices :: bool
  fit_sample :: "rng \<Rightarrow> 'x arr \<Rightarrow> 'y arr \<Rightarrow> (error + nat list) \<times> rng"

record ('x, 'y, 'w) BalancedBatchGenerator =
  self_X :: "'x arr"  \<comment> \<open>\<open>self.X\<close>\<close>
  self_y :: "'y arr"  \<comment> \<open>\<open>self.y\<close>\<close>
  sample_weight :: "'w arr option"
  batch_size :: int
  sparse :: bool
  indices_attr :: "nat list"  \<comment> \<open>the attribute \<open>indices_\<close>\<close>

definition generator_sample ::
  "('x, 'y) sampler \<Rightarrow> rng \<Rightarrow> ('x, 'y) sampler option \<Rightarrow>
   ('x, 'y, 'w) BalancedBatchGenerator \<Rightarrow> (error + ('x, 'y, 'w) BalancedBatchGenerator) \<times> rng" where
  \<comment> \<open>\<open>BalancedBatchGenerator._sample\<close>; the first argument stands for the default \<open>RandomUnderSampler\<close>\<close>
  "generator_sample RandomUnderSampler random_state sampler self =
     (case (case sampler of
              None \<Rightarrow> Inr RandomUnderSampler
            | Some s \<Rightarrow>
                if \<not> has_return_indices s
                then Inl (ValueError ''sampler needs to return the indices of the samples selected'')
                else Inr s) of
        Inl e \<Rightarrow> (Inl e, random_state)
      | Inr sampler_ \<Rightarrow>
          (case fit_sample sampler_ random_state (self_X self) (self_y self) of
             (Inl e, g) \<Rightarrow> (Inl e, g)
           | (Inr idx, g) \<Rightarrow>
               (let (shuffled, g') = shuffle g idx
                in (Inr (self\<lparr>indices_attr := shuffled\<rparr>), g'))))"

definition init ::
  "('x, 'y) sampler \<Rightarrow> rng \<Rightarrow> 'x arr \<Rightarrow> 'y arr \<Rightarrow> 'w arr option \<Rightarrow>
   ('x, 'y) sampler option \<Rightarrow> int \<Rightarrow> bool \<Rightarrow>
   (error + ('x, 'y, 'w) BalancedBatchGenerator) \<times> rng" where
  \<comment> \<open>\<open>__init__\<close>: stores its arguments, then calls \<open>_sample\<close>\<close>
  "init RandomUnderSampler random_state X0 y0 sample_weight0 sampler batch_size0 sparse0 =
     generator_sample RandomUnderSampler random_state sampler
       \<lparr>self_X = X0, self_y = y0, sample_weight = sample_weight0, batch_size = batch_size0,
        sparse = sparse0, indices_attr = []\<rparr>"

definition len :: "('x, 'y, 'w) BalancedBatchGenerator \<Rightarrow> error + int" where
  \<comment> \<open>\<open>__len__\<close>: \<open>int(self.indices_.size // self.batch_size)\<close>; Python's \<open>//\<close> rounds
      to minus infinity, as \<open>div\<close> on \<open>int\<close> does, and raises on a zero divisor\<close>
  "len self =
     (if batch_size self = 0 then Inl ZeroDivisionError
      else Inr (int (length (indices_attr self)) div batch_size self))"

definition window :: "('x, 'y, 'w) BalancedBatchGenerator \<Rightarrow> int \<Rightarrow> nat list" where
  \<comment> \<open>\<open>self.indices_[index * self.batch_size:(index + 1) * self.batch_size]\<close>\<close>
  "window self index =
     py_slice (indices_attr self) (index * batch_size self) ((index + 1) * batch_size self)"

definition getitem ::
  "('x, 'y, 'w) BalancedBatchGenerator \<Rightarrow> int \<Rightarrow>
   (error + 'x arr \<times> 'y arr \<times> 'w arr option) \<times> ('x, 'y, 'w) BalancedBatchGenerator" where
  \<comment> \<open>\<open>__getitem__\<close>, returned with the generator as the call leaves it. The third
      component is absent when no weights were given (the two-tuple of the source).\<close>
  "getitem self index =
     (case safe_indexing (self_X self) (window self index) of
        Inl e \<Rightarrow> (Inl e, self)
      | Inr X_resampled0 \<Rightarrow>
          (let X_resampled =
                 (if issparse X_resampled0 \<and> \<not> sparse self then toarray X_resampled0
                  else X_resampled0)
           in case safe_indexing (self_y self) (window self index) of
                Inl e \<Rightarrow> (Inl e, self)
              | Inr y_resampled0 \<Rightarrow>
                  (let y_resampled =
                         (if issparse y_resampled0 \<and> \<not> sparse self then toarray y_resampled0
                          else y_resampled0)
                   in case sample_weight self of
                        None \<Rightarrow> (Inr (X_resampled, y_resampled, None), self)
                      | Some w \<Rightarrow>
                          (case safe_indexing w (window self index) of
                             Inl e \<Rightarrow> (Inl e, self)
                           | Inr sample_weight_resampled \<Rightarrow>
                               if issparse sample_weight_resampled \<and> \<not> sparse self
                               then (Inl UnboundLocalError, self)
                               else (Inr (X_resampled, y_resampled,
                                          Some sample_weight_resampled), self)))))"


section \<open>The random over-sampler (\<open>imblearn/over_sampling/_random_over_sampler.py\<close>)\<close>

text \<open>
  Feature values are real numbers: the arithmetic of the smoothed bootstrap is the exact
  one, not its floating-point rounding. The feature matrix is an array of rows, each a
  list of one length (the number of features); the labels are a plain vector.
\<close>

type_synonym matrix = "real list arr"

text \<open>
  \<open>numpy\<close> is the part of the library the sampler touches: the generator that
  \<open>RandomState(seed)\<close> builds from an integer seed, and the global generator
  \<open>np.random\<close> that \<open>check_random_state(None)\<close> returns.
\<close>

record numpy =
  RandomState :: "int \<Rightarrow> rng"
  np_random :: rng

datatype random_state = NoSeed | Seed int | Instance rng

definition check_random_state :: "numpy \<Rightarrow> random_state \<Rightarrow> rng" where
  "check_random_state np seed =
     (case seed of NoSeed \<Rightarrow> np_random np | Seed i \<Rightarrow> RandomState np i | Instance g \<Rightarrow> g)"

datatype 'c shrinkage = Real real | Dict "('c \<times> real) list"

record 'c RandomOverSampler =
  random_state :: random_state
  smoothed_bootstrap :: bool
  shrinkage :: "'c shrinkage"
  sampling_strategy_attr :: "('c \<times> int) list"  \<comment> \<open>\<open>sampling_strategy_\<close>, in iteration order\<close>
  shrinkage_attr :: "('c \<times> real) list option"  \<comment> \<open>\<open>shrinkage_\<close>, \<open>None\<close> while unset\<close>
  sample_indices_attr :: "nat list option"  \<comment> \<open>\<open>sample_indices_\<close>, \<open>None\<close> while unset\<close>

definition leave_random_state ::
  "'c RandomOverSampler \<Rightarrow> numpy \<Rightarrow> rng \<Rightarrow> 'c RandomOverSampler \<times> numpy" where
  \<comment> \<open>where the draws of a call stay visible afterwards: a generator built from an
      integer seed is dropped, the global one and a caller's instance have moved on\<close>
  "leave_random_state self np g =
     (case random_state self of
        NoSeed \<Rightarrow> (self, np\<lparr>np_random := g\<rparr>)
      | Seed i \<Rightarrow> (self, np)
      | Instance g0 \<Rightarrow> (self\<lparr>random_state := Instance g\<rparr>, np))"

definition flatnonzero_eq :: "'c list \<Rightarrow> 'c \<Rightarrow> nat list" where
  \<comment> \<open>\<open>np.flatnonzero(y == class_sample)\<close>\<close>
  "flatnonzero_eq y class_sample = filter (\<lambda>i. y ! i = class_sample) [0..<length y]"

definition choice :: "rng \<Rightarrow> nat list \<Rightarrow> int \<Rightarrow> (error + nat list) \<times> rng" where
  \<comment> \<open>\<open>random_state.choice(a, size=n, replace=True)\<close>: \<open>a[randint(0, len(a), n)]\<close>\<close>
  "choice g a n =
     (if a = [] \<and> n \<noteq> 0
      then (Inl (ValueError ''a cannot be empty unless no samples are taken''), g)
      else if n < 0 then (Inl (ValueError ''negative dimensions are not allowed''), g)
      else (let (idx, g') = randint g (length a) (nat n)
            in (Inr (map (\<lambda>i. a ! i) idx), g')))"

definition randn :: "rng \<Rightarrow> nat \<Rightarrow> nat \<Rightarrow> real list list \<times> rng" where
  \<comment> \<open>\<open>random_state.randn(m, f)\<close>: \<open>m\<close> rows of \<open>f\<close> standard-normal draws\<close>
  "randn g m f =
     (map (\<lambda>i. map (\<lambda>j. normals g (i * f + j)) [0..<f]) [0..<m],
      g\<lparr>normals := \<lambda>k. normals g (k + m * f)\<rparr>)"

definition fancy_index :: "'a list \<Rightarrow> nat list \<Rightarrow> error + 'a list" where
  \<comment> \<open>\<open>y[indices]\<close> on a vector\<close>
  "fancy_index xs idx =
     (if \<forall>i \<in> set idx. i < length xs then Inr (map (\<lambda>i. xs ! i) idx) else Inl IndexError)"

definition shape :: "matrix \<Rightarrow> nat \<times> nat" where
  \<comment> \<open>\<open>X.shape\<close>; the column count is read off the first row (a matrix without rows
      makes the smoothing constant raise before the count is used)\<close>
  "shape X = (length (rows X), (case rows X of [] \<Rightarrow> 0 | r # _ \<Rightarrow> length r))"

definition smoothing_constant :: "nat \<Rightarrow> nat \<Rightarrow> error + real" where
  \<comment> \<open>\<open>(4 / ((n_features + 2) * n_samples)) ** (1 / (n_features + 4))\<close>\<close>
  "smoothing_constant n_samples n_features =
     (if (n_features + 2) * n_samples = 0 then Inl ZeroDivisionError
      else Inr ((4 / real ((n_features + 2) * n_samples)) powr (1 / real (n_features + 4))))"

definition mean :: "real list \<Rightarrow> real" where
  \<comment> \<open>of no values the library gives \<open>nan\<close> and a warning, the quotient here is 0; a
      class without rows has an empty block either way\<close>
  "mean xs = sum_list xs / real (length xs)"

definition variance :: "real list \<Rightarrow> real" where
  \<comment> \<open>the population variance\<close>
  "variance xs = mean (map (\<lambda>x. (x - mean xs)\<^sup>2) xs)"

definition column :: "real list list \<Rightarrow> nat \<Rightarrow> real list" where
  "column M j = map (\<lambda>r. r ! j) M"

definition mean_variance_axis :: "nat \<Rightarrow> real list list \<Rightarrow> real list" where
  \<comment> \<open>the variances that \<open>mean_variance_axis(M, axis=0)\<close> returns\<close>
  "mean_variance_axis n_features M = map (\<lambda>j. variance (column M j)) [0..<n_features]"

definition std :: "nat \<Rightarrow> real list list \<Rightarrow> real list" where
  \<comment> \<open>\<open>np.std(M, axis=0)\<close>\<close>
  "std n_features M = map (\<lambda>j. sqrt (variance (column M j))) [0..<n_features]"

definition diagflat :: "real list \<Rightarrow> real list list" where
  "diagflat v =
     map (\<lambda>i. map (\<lambda>j. if i = j then v ! i else 0) [0..<length v]) [0..<length v]"

definition dot :: "real list list \<Rightarrow> real list list \<Rightarrow> real list list" where
  \<comment> \<open>the matrix product \<open>A.dot(B)\<close> of an \<open>m \<times> n\<close> and an \<open>n \<times> n\<close> matrix\<close>
  "dot A B =
     map (\<lambda>a. map (\<lambda>j. \<Sum>k \<leftarrow> [0..<length B]. a ! k * (B ! k) ! j) [0..<length B]) A"

definition add :: "real list list \<Rightarrow> real list list \<Rightarrow> real list list" where
  \<comment> \<open>the sum of two matrices of one shape\<close>
  "add A B = map2 (\<lambda>a b. map2 (+) a b) A B"

definition validate_shrinkage :: "'c RandomOverSampler \<Rightarrow> error + 'c RandomOverSampler" where
  \<comment> \<open>lines 125 to 136 of \<open>_fit_resample\<close>\<close>
  "validate_shrinkage self =
     (if smoothed_bootstrap self then
        (case shrinkage self of
           Real s \<Rightarrow>
             Inr (self\<lparr>shrinkage_attr :=
                         Some (map (\<lambda>(klass, n). (klass, s)) (sampling_strategy_attr self))\<rparr>)
         | Dict d \<Rightarrow>
             (let missing_shrinkage_keys =
                    filter (\<lambda>k. k \<notin> set (map fst d)) (map fst (sampling_strategy_attr self))
              in if missing_shrinkage_keys \<noteq> [] then Inl (ValueError [])
                 else Inr (self\<lparr>shrinkage_attr := Some d\<rparr>)))
      else Inr self)"

definition smoothing_matrix ::
  "('c \<times> real) list option \<Rightarrow> matrix \<Rightarrow> 'c \<Rightarrow> nat list \<Rightarrow> error + real list list" where
  \<comment> \<open>lines 152 to 165: the diagonal matrix that scales the noise of one class\<close>
  "smoothing_matrix shrinkage0 X class_sample target_class_indices =
     (let (n_samples, n_features) = shape X in
      case smoothing_constant n_samples n_features of
        Inl e \<Rightarrow> Inl e
      | Inr c \<Rightarrow>
      (case safe_indexing X target_class_indices of
        Inl e \<Rightarrow> Inl e
      | Inr X_class \<Rightarrow>
      (let X_class_scale =
             (if issparse X then map sqrt (mean_variance_axis n_features (rows X_class))
              else std n_features (rows X_class))
       in case (case shrinkage0 of None \<Rightarrow> None | Some d \<Rightarrow> map_of d class_sample) of
            None \<Rightarrow> Inl KeyError
          | Some s \<Rightarrow> Inr (diagflat (map (\<lambda>v. s * c * v) X_class_scale)))))"

definition smoothed_block ::
  "('c \<times> real) list option \<Rightarrow> matrix \<Rightarrow> 'c \<Rightarrow> nat list \<Rightarrow> nat list \<Rightarrow> int \<Rightarrow> rng \<Rightarrow>
   (error + matrix) \<times> rng" where
  \<comment> \<open>lines 152 to 169: the perturbed copies of the donor rows of one class\<close>
  "smoothed_block shrinkage0 X class_sample target_class_indices bootstrap_indices
       num_samples g =
     (case smoothing_matrix shrinkage0 X class_sample target_class_indices of
        Inl e \<Rightarrow> (Inl e, g)
      | Inr M \<Rightarrow>
          (let (Z, g') = randn g (nat num_samples) (snd (shape X))
           in case safe_indexing X bootstrap_indices of
                Inl e \<Rightarrow> (Inl e, g')
              | Inr donors \<Rightarrow>
                  (Inr \<lparr>storage = (if issparse X then csr else ndarray),
                        rows = add (dot Z M) (rows donors)\<rparr>, g')))"

type_synonym 'c resampled = "nat list \<times> matrix list \<times> 'c list list"

definition resample_class ::
  "'c RandomOverSampler \<Rightarrow> matrix \<Rightarrow> 'c list \<Rightarrow> 'c \<times> int \<Rightarrow> 'c resampled \<Rightarrow> rng \<Rightarrow>
   (error + 'c resampled) \<times> rng" where
  \<comment> \<open>the body of the loop over \<open>sampling_strategy_.items()\<close>, lines 144 to 174\<close>
  "resample_class self X y item acc g =
     (let (class_sample, num_samples) = item;
          (sample_indices, X_resampled, y_resampled) = acc;
          target_class_indices = flatnonzero_eq y class_sample
      in case choice g target_class_indices num_samples of
           (Inl e, g1) \<Rightarrow> (Inl e, g1)
         | (Inr bootstrap_indices, g1) \<Rightarrow>
             (if smoothed_bootstrap self then
                (case smoothed_block (shrinkage_attr self) X class_sample target_class_indices
                        bootstrap_indices num_samples g1 of
                   (Inl e, g2) \<Rightarrow> (Inl e, g2)
                 | (Inr X_new, g2) \<Rightarrow>
                     (case fancy_index y bootstrap_indices of
                        Inl e \<Rightarrow> (Inl e, g2)
                      | Inr y_new \<Rightarrow>
                          (Inr (sample_indices @ bootstrap_indices, X_resampled @ [X_new],
                                y_resampled @ [y_new]), g2)))
              else
                (case safe_indexing X bootstrap_indices of
                   Inl e \<Rightarrow> (Inl e, g1)
                 | Inr X_new \<Rightarrow>
                     (case fancy_index y bootstrap_indices of
                        Inl e \<Rightarrow> (Inl e, g1)
                      | Inr y_new \<Rightarrow>
                          (Inr (sample_indices @ bootstrap_indices, X_resampled @ [X_new],
                                y_resampled @ [y_new]), g1)))))"

fun resample_loop ::
  "'c RandomOverSampler \<Rightarrow> matrix \<Rightarrow> 'c list \<Rightarrow> ('c \<times> int) list \<Rightarrow> 'c resampled \<Rightarrow> rng \<Rightarrow>
   (error + 'c resampled) \<times> rng" where
  "resample_loop self X y [] acc g = (Inr acc, g)"
| "resample_loop self X y (item # items) acc g =
     (case resample_class self X y item acc g of
        (Inl e, g') \<Rightarrow> (Inl e, g')
      | (Inr acc', g') \<Rightarrow> resample_loop self X y items acc' g')"

definition vstack :: "storage \<Rightarrow> matrix list \<Rightarrow> matrix" where
  \<comment> \<open>\<open>sparse.vstack(blocks, format=X.format)\<close>, and \<open>np.vstack(blocks)\<close> when dense\<close>
  "vstack format blocks = \<lparr>storage = format, rows = concat (map rows blocks)\<rparr>"

definition fit_resample ::
  "numpy \<Rightarrow> 'c RandomOverSampler \<Rightarrow> matrix \<Rightarrow> 'c list \<Rightarrow>
   (error + matrix \<times> 'c list) \<times> 'c RandomOverSampler \<times> numpy" where
  \<comment> \<open>\<open>_fit_resample\<close>: the outcome, the sampler and the library state after the call\<close>
  "fit_resample np self X y =
     (let rstate = check_random_state np (random_state self) in
      case validate_shrinkage self of
        Inl e \<Rightarrow> (Inl e, self, np)
      | Inr self1 \<Rightarrow>
          (case resample_loop self1 X y (sampling_strategy_attr self1)
                  ([0..<fst (shape X)], [X], [y]) rstate of
             (Inl e, g) \<Rightarrow> (Inl e, leave_random_state self1 np g)
           | (Inr (sample_indices, X_resampled, y_resampled), g) \<Rightarrow>
               (Inr (vstack (storage X) X_resampled, concat y_resampled),
                leave_random_state (self1\<lparr>sample_indices_attr := Some sample_indices\<rparr>) np g)))"

section \<open>The earlier random over-sampler (\<open>imblearn/over_sampling/random_over_sampler.py\<close>)\<close>

record 'c RatioOverSampler =
  ratio_random_state :: random_state
  ratio_attr :: "('c \<times> int) list"  \<comment> \<open>\<open>ratio_\<close>, in iteration order\<close>

definition randint_low_high :: "rng \<Rightarrow> nat \<Rightarrow> int \<Rightarrow> (error + nat list) \<times> rng" where
  \<comment> \<open>\<open>random_state.randint(low=0, high=high, size=n)\<close>\<close>
  "randint_low_high g high n =
     (if high = 0 then (Inl (ValueError ''low >= high''), g)
      else if n < 0 then (Inl (ValueError ''negative dimensions are not allowed''), g)
      else (let (idx, g') = randint g high (nat n) in (Inr idx, g')))"

definition mask_eq :: "'a list \<Rightarrow> 'c list \<Rightarrow> 'c \<Rightarrow> error + 'a list" where
  \<comment> \<open>\<open>X[y == class_sample]\<close>: a boolean mask has to be as long as the array\<close>
  "mask_eq xs y class_sample =
     (if length xs \<noteq> length y then Inl IndexError
      else Inr (map (\<lambda>i. xs ! i) (flatnonzero_eq y class_sample)))"

definition ratio_sample_class ::
  "'x list \<Rightarrow> 'c list \<Rightarrow> 'c \<times> int \<Rightarrow> 'x list \<times> 'c list \<Rightarrow> rng \<Rightarrow>
   (error + 'x list \<times> 'c list) \<times> rng" where
  \<comment> \<open>the body of the loop over \<open>ratio_.items()\<close>, lines 107 to 116\<close>
  "ratio_sample_class X y item acc g =
     (let (class_sample, num_samples) = item;
          (X_resampled, y_resampled) = acc;
          target_stats = count_list y
      in case randint_low_high g (target_stats class_sample) num_samples of
           (Inl e, g') \<Rightarrow> (Inl e, g')
         | (Inr index_samples, g') \<Rightarrow>
             (case mask_eq X y class_sample of
                Inl e \<Rightarrow> (Inl e, g')
              | Inr X_class \<Rightarrow>
                  (case fancy_index X_class index_samples of
                     Inl e \<Rightarrow> (Inl e, g')
                   | Inr X_new \<Rightarrow>
                       (case mask_eq y y class_sample of
                          Inl e \<Rightarrow> (Inl e, g')
                        | Inr y_class \<Rightarrow>
                            (case fancy_index y_class index_samples of
                               Inl e \<Rightarrow> (Inl e, g')
                             | Inr y_new \<Rightarrow>
                                 (Inr (X_resampled @ X_new, y_resampled @ y_new), g'))))))"

fun ratio_sample_loop ::
  "'x list \<Rightarrow> 'c list \<Rightarrow> ('c \<times> int) list \<Rightarrow> 'x list \<times> 'c list \<Rightarrow> rng \<Rightarrow>
   (error + 'x list \<times> 'c list) \<times> rng" where
  "ratio_sample_loop X y [] acc g = (Inr acc, g)"
| "ratio_sample_loop X y (item # items) acc g =
     (case ratio_sample_class X y item acc g of
        (Inl e, g') \<Rightarrow> (Inl e, g')
      | (Inr acc', g') \<Rightarrow> ratio_sample_loop X y items acc' g')"

definition ratio_sample ::
  "numpy \<Rightarrow> 'c RatioOverSampler \<Rightarrow> 'x list \<Rightarrow> 'c list \<Rightarrow> error + 'x list \<times> 'c list" where
  \<comment> \<open>\<open>_sample\<close> of the earlier sampler\<close>
  "ratio_sample np self X y =
     fst (ratio_sample_loop X y (ratio_attr self) (X, y)
            (check_random_state np (ratio_random_state self)))"

section \<open>Example data\<close>

text \<open>
  A small data set of five rows with one feature and three classes, a library state whose
  seeded generators draw \<open>0, 1, 2, \<dots>\<close> and the constant normal deviate 1, and a
  sampler that asks for one more row of class 1 and two more of class 2.
\<close>

abbreviation example_numpy :: numpy where
  "example_numpy \<equiv>
     \<lparr>RandomState = (\<lambda>s. \<lparr>ints = (\<lambda>k. k), normals = (\<lambda>k. 1)\<rparr>),
      np_random = \<lparr>ints = (\<lambda>k. 0), normals = (\<lambda>k. 0)\<rparr>\<rparr>"

abbreviation example_X :: matrix where
  "example_X \<equiv> \<lparr>storage = ndarray, rows = [[10], [11], [12], [13], [14]]\<rparr>"

abbreviation example_y :: "nat list" where
  "example_y \<equiv> [0, 1, 2, 1, 0]"

abbreviation example_sampler :: "nat RandomOverSampler" where
  "example_sampler \<equiv>
     \<lparr>random_state = Seed 42, smoothed_bootstrap = False, shrinkage = Real 1,
      sampling_strategy_attr = [(1, 1), (2, 2)], shrinkage_attr = None,
      sample_indices_attr = None\<rparr>"

abbreviation example_ratio_sampler :: "nat RatioOverSampler" where
  "example_ratio_sampler \<equiv> \<lparr>ratio_random_state = Seed 42, ratio_attr = [(1, 1), (2, 2)]\<rparr>"

section \<open>Properties of the batch generator\<close>

lemma py_slice_inside:
  "0 \<le> lo \<Longrightarrow> lo \<le> hi \<Longrightarrow> hi \<le> int (length xs) \<Longrightarrow>
   py_slice xs lo hi = take (nat (hi - lo)) (drop (nat lo) xs)"
  by (simp add: py_slice_def clamp_index_def Let_def nat_diff_distrib')

lemma full_batches_bound:
  assumes "0 < (b::int)" "0 \<le> i" "i < n div b"
  shows "(i + 1) * b \<le> b * (n div b)" and "b * (n div b) \<le> n"
proof -
  have "i + 1 \<le> n div b" using assms by simp
  then have "(i + 1) * b \<le> (n div b) * b" using assms(1) by (simp add: mult_right_mono)
  then show "(i + 1) * b \<le> b * (n div b)" by (simp add: mult.commute)
  have "n = b * (n div b) + n mod b" by simp
  moreover have "0 \<le> n mod b" using assms(1) by simp
  ultimately show "b * (n div b) \<le> n" by linarith
qed

lemma window_full:
  assumes "0 < batch_size self" "0 \<le> i" "i < int (length (indices_attr self)) div batch_size self"
  shows "window self i = take (nat (batch_size self)) (drop (nat (i * batch_size self)) (indices_attr self))"
proof -
  let ?b = "batch_size self" and ?n = "int (length (indices_attr self))"
  have hi: "(i + 1) * ?b \<le> ?n"
    using full_batches_bound [OF assms] by linarith
  have lo0: "0 \<le> i * ?b" using assms by simp
  have d: "(i + 1) * ?b - i * ?b = ?b" by (simp add: distrib_right)
  have lo: "i * ?b \<le> (i + 1) * ?b" using d assms(1) by linarith
  show ?thesis
    unfolding window_def using py_slice_inside [OF lo0 lo hi] d by simp
qed

lemma window_truncated:
  assumes "0 < batch_size self" "0 \<le> i" "i < int (length (indices_attr self)) div batch_size self"
  shows "window (self\<lparr>indices_attr := take (nat (batch_size self * (int (length (indices_attr self)) div batch_size self))) (indices_attr self)\<rparr>) i = window self i"
    and "length (window self i) = nat (batch_size self)"
proof -
  let ?b = "batch_size self" and ?n = "int (length (indices_attr self))"
  let ?m = "?b * (?n div ?b)"
  let ?t = "self\<lparr>indices_attr := take (nat ?m) (indices_attr self)\<rparr>"
  have b1: "(i + 1) * ?b \<le> ?m" and b2: "?m \<le> ?n"
    using full_batches_bound [OF assms] by simp_all
  have lo0: "0 \<le> i * ?b" using assms by simp
  have d: "(i + 1) * ?b - i * ?b = ?b" by (simp add: distrib_right)
  have lo: "i * ?b \<le> (i + 1) * ?b" using d assms(1) by linarith
  have lenT: "int (length (indices_attr ?t)) = ?m" using b2 lo0 b1 lo by simp
  have hiT: "(i + 1) * ?b \<le> int (length (indices_attr ?t))" using lenT b1 by simp
  have "window ?t i = take (nat ?b) (drop (nat (i * ?b)) (take (nat ?m) (indices_attr self)))"
    unfolding window_def using py_slice_inside [OF lo0 lo hiT] d by simp
  also have "\<dots> = take (nat ?b) (take (nat ?m - nat (i * ?b)) (drop (nat (i * ?b)) (indices_attr self)))"
    by (simp add: drop_take)
  also have "\<dots> = take (nat ?b) (drop (nat (i * ?b)) (indices_attr self))"
  proof -
    have "nat ?b \<le> nat ?m - nat (i * ?b)" using b1 d lo0 by linarith
    then show ?thesis by (simp add: min_def)
  qed
  finally show "window ?t i = window self i" using window_full [OF assms] by simp
  have "nat (i * ?b) + nat ?b \<le> length (indices_attr self)" using b1 b2 d lo0 assms(1) by linarith
  then show "length (window self i) = nat ?b" using window_full [OF assms] by simp
qed

lemma getitem_window:
  "window s i = window t i \<Longrightarrow> self_X s = self_X t \<Longrightarrow> self_y s = self_y t \<Longrightarrow> sample_weight s = sample_weight t \<Longrightarrow> sparse s = sparse t \<Longrightarrow>
   fst (getitem s i) = fst (getitem t i)"
  by (simp add: getitem_def Let_def split: sum.splits option.splits)


lemma getitem_Inr:
  assumes "fst (getitem self i) = Inr (Xb, yb, wb)"
  shows "Xb = \<lparr>storage = (if sparse self then storage (self_X self) else ndarray),
               rows = map (\<lambda>j. rows (self_X self) ! j) (window self i)\<rparr>"
    and "yb = \<lparr>storage = (if sparse self then storage (self_y self) else ndarray),
               rows = map (\<lambda>j. rows (self_y self) ! j) (window self i)\<rparr>"
    and "wb = map_option (\<lambda>w. w\<lparr>rows := map (\<lambda>j. rows w ! j) (window self i)\<rparr>)
                (sample_weight self)"
  using assms
  by (auto simp: getitem_def safe_indexing_def issparse_def toarray_def Let_def
           split: sum.splits option.splits if_splits)

lemma getitem_returns:
  assumes "\<forall>j \<in> set (window self i).
             j < length (rows (self_X self)) \<and> j < length (rows (self_y self))"
    "case sample_weight self of None \<Rightarrow> True
     | Some w \<Rightarrow> (\<forall>j \<in> set (window self i). j < length (rows w)) \<and>
                  (issparse w \<longrightarrow> sparse self)"
  shows "\<exists>out. fst (getitem self i) = Inr out"
  using assms
  by (auto simp: getitem_def safe_indexing_def issparse_def Let_def
           split: option.splits)

lemma take_drop_nth:
  assumes "lo + k \<le> length xs"
  shows "take k (drop lo xs) = map (\<lambda>p. xs ! p) [lo ..< lo + k]"
proof -
  have "take k (drop lo xs) = take k (drop lo (map (\<lambda>p. xs ! p) [0..<length xs]))"
    by (simp add: map_nth)
  also have "\<dots> = map (\<lambda>p. xs ! p) (take k (drop lo [0..<length xs]))"
    by (simp add: take_map drop_map)
  also have "\<dots> = map (\<lambda>p. xs ! p) [lo ..< lo + k]"
    using assms by (simp add: drop_upt take_upt)
  finally show ?thesis .
qed

lemma window_positions:
  assumes "0 < batch_size self" "0 \<le> i" "i < int (length (indices_attr self)) div batch_size self"
  shows "window self i = map (\<lambda>p. indices_attr self ! p)
                           [nat (i * batch_size self) ..< nat (i * batch_size self) + nat (batch_size self)]"
    and "nat (i * batch_size self) + nat (batch_size self)
           \<le> nat (batch_size self * (int (length (indices_attr self)) div batch_size self))"
    and "nat (batch_size self * (int (length (indices_attr self)) div batch_size self))
           \<le> length (indices_attr self)"
proof -
  let ?b = "batch_size self" and ?n = "int (length (indices_attr self))"
  have b1: "(i + 1) * ?b \<le> ?b * (?n div ?b)" and b2: "?b * (?n div ?b) \<le> ?n"
    using full_batches_bound [OF assms] by simp_all
  have lo0: "0 \<le> i * ?b" using assms by simp
  have d: "(i + 1) * ?b = i * ?b + ?b" by (simp add: distrib_right)
  show le: "nat (i * ?b) + nat ?b \<le> nat (?b * (?n div ?b))"
    using b1 d lo0 assms(1) by linarith
  show le2: "nat (?b * (?n div ?b)) \<le> length (indices_attr self)" using b2 by linarith
  have "take (nat ?b) (drop (nat (i * ?b)) (indices_attr self))
          = map (\<lambda>p. indices_attr self ! p) [nat (i * ?b) ..< nat (i * ?b) + nat ?b]"
    using le le2 by (intro take_drop_nth) simp
  then show "window self i = map (\<lambda>p. indices_attr self ! p)
                           [nat (i * ?b) ..< nat (i * ?b) + nat ?b]"
    using window_full [OF assms] by simp
qed


text \<open>
  C7. The generator reports \<open>floor(n / b)\<close> batches for \<open>n\<close> selected rows and batch size
  \<open>b\<close> (9 for 95 rows in batches of 10). Every batch \<open>i\<close> with \<open>0 \<le> i < floor(n / b)\<close> is
  built from a full window of \<open>b\<close> entries of the shuffled order, the ones at the positions
  \<open>i * b\<close> up to \<open>i * b + b - 1\<close>, all below \<open>b * floor(n / b)\<close>: a batch that is returned
  holds the rows of features, labels and weights at the indices of its window and no
  other row, it is returned whenever those indices are rows of the data, and it is the
  same when the shuffled order is cut after its first \<open>b * floor(n / b)\<close> positions. So the
  trailing rows take part in no batch, and no batch is padded. (A batch size of zero
  makes \<open>__len__\<close> raise, there is no quotient then.)
\<close>

theorem len_floor_trailing_rows_dropped:
  assumes "batch_size self \<noteq> 0"
  shows "len self = Inr (int (length (indices_attr self)) div batch_size self) \<and>
         (length (indices_attr self) = 95 \<and> batch_size self = 10 \<longrightarrow> len self = Inr 9) \<and>
         (\<forall>i. 0 \<le> i \<and> i < int (length (indices_attr self)) div batch_size self \<longrightarrow>
            length (window self i) = nat (batch_size self) \<and>
            window self i =
              map (\<lambda>p. indices_attr self ! p)
                [nat (i * batch_size self) ..< nat (i * batch_size self) + nat (batch_size self)] \<and>
            nat (i * batch_size self) + nat (batch_size self)
              \<le> nat (batch_size self *
                       (int (length (indices_attr self)) div batch_size self)) \<and>
            window (self\<lparr>indices_attr :=
                      take (nat (batch_size self *
                                 (int (length (indices_attr self)) div batch_size self)))
                        (indices_attr self)\<rparr>) i = window self i \<and>
            fst (getitem (self\<lparr>indices_attr :=
                      take (nat (batch_size self *
                                 (int (length (indices_attr self)) div batch_size self)))
                        (indices_attr self)\<rparr>) i) = fst (getitem self i) \<and>
            (\<forall>Xb yb wb. fst (getitem self i) = Inr (Xb, yb, wb) \<longrightarrow>
               Xb = \<lparr>storage = (if sparse self then storage (self_X self) else ndarray),
                      rows = map (\<lambda>j. rows (self_X self) ! j) (window self i)\<rparr> \<and>
               yb = \<lparr>storage = (if sparse self then storage (self_y self) else ndarray),
                      rows = map (\<lambda>j. rows (self_y self) ! j) (window self i)\<rparr> \<and>
               wb = map_option (\<lambda>w. w\<lparr>rows := map (\<lambda>j. rows w ! j) (window self i)\<rparr>)
                      (sample_weight self)) \<and>
            ((\<forall>j \<in> set (window self i).
                 j < length (rows (self_X self)) \<and> j < length (rows (self_y self))) \<and>
             (case sample_weight self of None \<Rightarrow> True
              | Some w \<Rightarrow> (\<forall>j \<in> set (window self i). j < length (rows w)) \<and>
                           (issparse w \<longrightarrow> sparse self)) \<longrightarrow>
             (\<exists>out. fst (getitem self i) = Inr out)))"
proof -
  let ?n = "int (length (indices_attr self))" and ?b = "batch_size self"
  let ?t = "self\<lparr>indices_attr := take (nat (?b * (?n div ?b))) (indices_attr self)\<rparr>"
  have l: "len self = Inr (?n div ?b)" using assms by (simp add: len_def)
  have p: "length (indices_attr self) = 95 \<and> ?b = 10 \<longrightarrow> len self = Inr 9"
    using l by auto
  have c: "\<forall>Xb yb wb. fst (getitem self i) = Inr (Xb, yb, wb) \<longrightarrow>
               Xb = \<lparr>storage = (if sparse self then storage (self_X self) else ndarray),
                      rows = map (\<lambda>j. rows (self_X self) ! j) (window self i)\<rparr> \<and>
               yb = \<lparr>storage = (if sparse self then storage (self_y self) else ndarray),
                      rows = map (\<lambda>j. rows (self_y self) ! j) (window self i)\<rparr> \<and>
               wb = map_option (\<lambda>w. w\<lparr>rows := map (\<lambda>j. rows w ! j) (window self i)\<rparr>)
                      (sample_weight self)" for i
    using getitem_Inr [of self i] by blast
  have r: "(\<forall>j \<in> set (window self i).
                 j < length (rows (self_X self)) \<and> j < length (rows (self_y self))) \<and>
             (case sample_weight self of None \<Rightarrow> True
              | Some w \<Rightarrow> (\<forall>j \<in> set (window self i). j < length (rows w)) \<and>
                           (issparse w \<longrightarrow> sparse self)) \<longrightarrow>
             (\<exists>out. fst (getitem self i) = Inr out)" for i
    using getitem_returns [of self i] by blast
  have w: "length (window self i) = nat ?b \<and>
           window self i = map (\<lambda>p. indices_attr self ! p)
                             [nat (i * ?b) ..< nat (i * ?b) + nat ?b] \<and>
           nat (i * ?b) + nat ?b \<le> nat (?b * (?n div ?b)) \<and>
           window ?t i = window self i \<and>
           fst (getitem ?t i) = fst (getitem self i)"
    if i: "0 \<le> i \<and> i < ?n div ?b" for i
  proof -
    have bpos: "0 < ?b"
    proof (rule ccontr)
      assume "\<not> 0 < ?b"
      then have "?b < 0" using assms by simp
      then have "?n div ?b \<le> 0" by (simp add: div_nonneg_neg_le0)
      then show False using i by simp
    qed
    have w1: "window ?t i = window self i" and w2: "length (window self i) = nat ?b"
      using window_truncated [of self i] bpos i by simp_all
    have w3: "window self i = map (\<lambda>p. indices_attr self ! p)
                             [nat (i * ?b) ..< nat (i * ?b) + nat ?b]"
      and w4: "nat (i * ?b) + nat ?b \<le> nat (?b * (?n div ?b))"
      using window_positions [of self i] bpos i by simp_all
    show ?thesis using w1 w2 w3 w4 getitem_window [OF w1] by simp
  qed
  show ?thesis
  proof (intro conjI allI impI)
    show "len self = Inr (?n div ?b)" by (rule l)
  next
    assume "length (indices_attr self) = 95 \<and> ?b = 10"
    then show "len self = Inr 9" using p by simp
  qed (use w c r in \<open>blast+\<close>)
qed

theorem len_floor_trailing_rows_dropped_witness:
  "len \<lparr>self_X = \<lparr>storage = ndarray, rows = [0..<130]\<rparr>, self_y = \<lparr>storage = ndarray, rows = [0..<130]\<rparr>,
        sample_weight = (None :: nat arr option), batch_size = 10, sparse = False,
        indices_attr = [0..<95]\<rparr> = Inr 9 \<and>
   window \<lparr>self_X = \<lparr>storage = ndarray, rows = [0..<130]\<rparr>, self_y = \<lparr>storage = ndarray, rows = [0..<130]\<rparr>,
        sample_weight = (None :: nat arr option), batch_size = 10, sparse = False,
        indices_attr = [0..<95]\<rparr> 8 = [80..<90] \<and>
   window \<lparr>self_X = \<lparr>storage = ndarray, rows = [0..<130]\<rparr>, self_y = \<lparr>storage = ndarray, rows = [0..<130]\<rparr>,
        sample_weight = (None :: nat arr option), batch_size = 10, sparse = False,
        indices_attr = [0..<90]\<rparr> 8 = [80..<90] \<and>
   fst (getitem \<lparr>self_X = \<lparr>storage = ndarray, rows = [0..<130]\<rparr>, self_y = \<lparr>storage = ndarray, rows = [0..<130]\<rparr>,
        sample_weight = (None :: nat arr option), batch_size = 10, sparse = False,
        indices_attr = [0..<95]\<rparr> 8)
     = Inr (\<lparr>storage = ndarray, rows = [80..<90]\<rparr>, \<lparr>storage = ndarray, rows = [80..<90]\<rparr>, None)"
proof -
  let ?g = "\<lparr>self_X = \<lparr>storage = ndarray, rows = [0..<130]\<rparr>, self_y = \<lparr>storage = ndarray, rows = [0..<130]\<rparr>,
        sample_weight = (None :: nat arr option), batch_size = 10, sparse = False,
        indices_attr = [0..<95]\<rparr>"
  have b: "batch_size ?g \<noteq> 0" by simp
  have n: "length (indices_attr ?g) = 95 \<and> batch_size ?g = 10" by simp
  have i: "(0::int) \<le> 8 \<and> 8 < int (length (indices_attr ?g)) div batch_size ?g" by simp
  have w: "window ?g 8 = [80..<90]"
    by (simp add: window_def py_slice_def clamp_index_def Let_def drop_upt take_upt)
  have v: "(\<forall>j \<in> set (window ?g 8).
              j < length (rows (self_X ?g)) \<and> j < length (rows (self_y ?g))) \<and>
           (case sample_weight ?g of None \<Rightarrow> True
            | Some w \<Rightarrow> (\<forall>j \<in> set (window ?g 8). j < length (rows w)) \<and>
                         (issparse w \<longrightarrow> sparse ?g))"
    unfolding w by simp
  have m: "map (\<lambda>j. [0..<130] ! j) [80..<90] = [80..<90]"
  proof (rule map_idI)
    fix x :: nat assume "x \<in> set [80..<90]"
    then have "x < 90" unfolding set_upt by simp
    then have "x < 130" by simp
    then show "[0..<130] ! x = x" by simp
  qed
  note t = len_floor_trailing_rows_dropped [OF b]
  from t n have l: "len ?g = Inr 9" by blast
  from t i have
    tw: "window (?g\<lparr>indices_attr :=
                      take (nat (batch_size ?g *
                                 (int (length (indices_attr ?g)) div batch_size ?g)))
                        (indices_attr ?g)\<rparr>) 8 = window ?g 8"
    by blast
  from t i v obtain out where o: "fst (getitem ?g 8) = Inr out" by blast
  obtain Xb yb wb where out: "out = (Xb, yb, wb)" by (cases out)
  from t i o [unfolded out] have
    "Xb = \<lparr>storage = (if sparse ?g then storage (self_X ?g) else ndarray),
           rows = map (\<lambda>j. rows (self_X ?g) ! j) (window ?g 8)\<rparr> \<and>
     yb = \<lparr>storage = (if sparse ?g then storage (self_y ?g) else ndarray),
           rows = map (\<lambda>j. rows (self_y ?g) ! j) (window ?g 8)\<rparr> \<and>
     wb = map_option (\<lambda>w. w\<lparr>rows := map (\<lambda>j. rows w ! j) (window ?g 8)\<rparr>)
            (sample_weight ?g)"
    by blast
  then have g: "fst (getitem ?g 8)
     = Inr (\<lparr>storage = ndarray, rows = [80..<90]\<rparr>, \<lparr>storage = ndarray, rows = [80..<90]\<rparr>, None)"
    unfolding o out w using m by simp
  show ?thesis using l tw w g by (simp add: take_upt)
qed

text \<open>
  C8. A generator built by the constructor holds the sampler's indices in the order that
  one shuffle with the constructor's random source gave them. Asking it for batch \<open>i\<close>
  leaves the generator as it was, so asking again gives the same batch.
\<close>

theorem getitem_twice_same_batch:
  assumes "init RandomUnderSampler rs X0 y0 sample_weight0 sampler batch_size0 sparse0
             = (Inr self, g')"
  shows "(\<exists>s idx g. (sampler = None \<and> s = RandomUnderSampler \<or> sampler = Some s) \<and>
            fit_sample s rs X0 y0 = (Inr idx, g) \<and>
            shuffle g idx = (indices_attr self, g')) \<and>
         snd (getitem self i) = self \<and>
         fst (getitem (snd (getitem self i)) i) = fst (getitem self i)"
proof -
  have c: "\<exists>s idx g. (sampler = None \<and> s = RandomUnderSampler \<or> sampler = Some s) \<and>
            fit_sample s rs X0 y0 = (Inr idx, g) \<and>
            shuffle g idx = (indices_attr self, g')"
    using assms
    by (auto simp: init_def generator_sample_def Let_def
             split: option.splits sum.splits if_splits prod.splits)
  have s: "snd (getitem self i) = self"
    by (simp add: getitem_def Let_def split: sum.splits option.splits)
  show ?thesis using c s by simp
qed

theorem getitem_twice_same_batch_witness:
  "init \<lparr>has_return_indices = True, fit_sample = (\<lambda>g X0 y0. (Inr [0, 1, 2], g))\<rparr>
        \<lparr>ints = (\<lambda>k. 0), normals = (\<lambda>k. 0)\<rparr>
        \<lparr>storage = ndarray, rows = [10, 20, 30 :: nat]\<rparr>
        \<lparr>storage = ndarray, rows = [0, 1, 1 :: nat]\<rparr>
        (None :: nat arr option) None 2 False
     = (Inr \<lparr>self_X = \<lparr>storage = ndarray, rows = [10, 20, 30]\<rparr>,
             self_y = \<lparr>storage = ndarray, rows = [0, 1, 1]\<rparr>,
             sample_weight = None, batch_size = 2, sparse = False,
             indices_attr = [1, 2, 0]\<rparr>, \<lparr>ints = (\<lambda>k. 0), normals = (\<lambda>k. 0)\<rparr>) \<and>
   fst (getitem \<lparr>self_X = \<lparr>storage = ndarray, rows = [10, 20, 30 :: nat]\<rparr>,
             self_y = \<lparr>storage = ndarray, rows = [0, 1, 1 :: nat]\<rparr>,
             sample_weight = (None :: nat arr option), batch_size = 2, sparse = False,
             indices_attr = [1, 2, 0]\<rparr> 0)
     = Inr (\<lparr>storage = ndarray, rows = [20, 30]\<rparr>, \<lparr>storage = ndarray, rows = [1, 1]\<rparr>, None) \<and>
   fst (getitem (snd (getitem \<lparr>self_X = \<lparr>storage = ndarray, rows = [10, 20, 30 :: nat]\<rparr>,
             self_y = \<lparr>storage = ndarray, rows = [0, 1, 1 :: nat]\<rparr>,
             sample_weight = (None :: nat arr option), batch_size = 2, sparse = False,
             indices_attr = [1, 2, 0]\<rparr> 0)) 0)
     = Inr (\<lparr>storage = ndarray, rows = [20, 30]\<rparr>, \<lparr>storage = ndarray, rows = [1, 1]\<rparr>, None)"
proof -
  let ?self = "\<lparr>self_X = \<lparr>storage = ndarray, rows = [10, 20, 30 :: nat]\<rparr>,
             self_y = \<lparr>storage = ndarray, rows = [0, 1, 1 :: nat]\<rparr>,
             sample_weight = (None :: nat arr option), batch_size = 2, sparse = False,
             indices_attr = [1, 2, 0]\<rparr>"
  have sh: "shuffle \<lparr>ints = (\<lambda>k. 0), normals = (\<lambda>k. 0)\<rparr> [0, 1, 2 :: nat]
              = ([1, 2, 0], \<lparr>ints = (\<lambda>k. 0), normals = (\<lambda>k. 0)\<rparr>)"
    by (simp add: shuffle_def randint_def numeral_2_eq_2)
  have i: "init \<lparr>has_return_indices = True, fit_sample = (\<lambda>g X0 y0. (Inr [0, 1, 2], g))\<rparr>
        \<lparr>ints = (\<lambda>k. 0), normals = (\<lambda>k. 0)\<rparr>
        \<lparr>storage = ndarray, rows = [10, 20, 30 :: nat]\<rparr>
        \<lparr>storage = ndarray, rows = [0, 1, 1 :: nat]\<rparr>
        (None :: nat arr option) None 2 False
     = (Inr ?self, \<lparr>ints = (\<lambda>k. 0), normals = (\<lambda>k. 0)\<rparr>)"
    using sh by (simp add: init_def generator_sample_def)
  have g: "fst (getitem ?self 0)
     = Inr (\<lparr>storage = ndarray, rows = [20, 30]\<rparr>, \<lparr>storage = ndarray, rows = [1, 1]\<rparr>, None)"
    by (simp add: getitem_def window_def py_slice_def clamp_index_def safe_indexing_def
                  issparse_def Let_def)
  show ?thesis using getitem_twice_same_batch [OF i, of 0] i g by simp
qed


section \<open>Properties of the random over-sampler\<close>

subsection \<open>Drawing and one step of the loop\<close>

lemma set_flatnonzero_eq: "set (flatnonzero_eq y c) = {i. i < length y \<and> y ! i = c}"
  by (auto simp: flatnonzero_eq_def)

lemma flatnonzero_eq_Nil: "flatnonzero_eq y c = [] \<longleftrightarrow> c \<notin> set y"
  by (auto simp: flatnonzero_eq_def filter_empty_conv in_set_conv_nth)

lemma choice_Inr:
  assumes "choice g a n = (Inr idx, g')"
  shows "0 \<le> n" and "length idx = nat n" and "set idx \<subseteq> set a"
    and "g' = snd (randint g (length a) (nat n))"
proof -
  from assms have n: "0 \<le> n" and e: "a = [] \<longrightarrow> n = 0"
    by (auto simp: choice_def split: if_splits)
  from assms n e have i: "idx = map (\<lambda>i. a ! i) (fst (randint g (length a) (nat n)))"
    and g: "g' = snd (randint g (length a) (nat n))"
    by (auto simp: choice_def split: if_splits prod.splits)
  show "0 \<le> n" by (rule n)
  show "g' = snd (randint g (length a) (nat n))" by (rule g)
  show "length idx = nat n" using i by (simp add: randint_def)
  show "set idx \<subseteq> set a"
  proof (cases "a = []")
    case True
    then show ?thesis using i e by (simp add: randint_def)
  next
    case False
    then show ?thesis using i by (auto simp: randint_def)
  qed
qed

lemma choice_succeeds:
  "0 \<le> n \<Longrightarrow> (n \<noteq> 0 \<longrightarrow> a \<noteq> []) \<Longrightarrow> \<exists>idx g'. choice g a n = (Inr idx, g')"
  by (auto simp: choice_def split: prod.splits)

lemma fancy_index_Inr: "fancy_index xs idx = Inr r \<Longrightarrow> r = map (\<lambda>i. xs ! i) idx"
  by (auto simp: fancy_index_def split: if_splits)

lemma safe_indexing_Inr:
  "safe_indexing a idx = Inr r \<Longrightarrow> r = a\<lparr>rows := map (\<lambda>i. rows a ! i) idx\<rparr>"
  by (auto simp: safe_indexing_def split: if_splits)

lemma length_add: "length (add A B) = min (length A) (length B)"
  by (simp add: add_def)

lemma length_dot: "length (dot A B) = length A"
  by (simp add: dot_def)

lemma length_randn: "randn g m f = (Z, g') \<Longrightarrow> length Z = m"
  by (auto simp: randn_def)

lemma smoothed_block_Inr:
  assumes "smoothed_block sh X c tci idx k g = (Inr Xn, g')"
  shows "length (rows Xn) = min (nat k) (length idx)"
  using assms
  by (auto simp: smoothed_block_def Let_def length_add length_dot randn_def
           dest!: safe_indexing_Inr
           split: prod.splits sum.splits option.splits if_splits)

lemma resample_class_Inr:
  assumes "resample_class self X y (c, k) (si, Xs, ys) g = (Inr acc', g')"
  shows "\<exists>idx Xn. acc' = (si @ idx, Xs @ [Xn], ys @ [map (\<lambda>i. y ! i) idx]) \<and>
           length idx = nat k \<and> set idx \<subseteq> {i. i < length y \<and> y ! i = c} \<and>
           length (rows Xn) = length idx \<and>
           (\<not> smoothed_bootstrap self \<longrightarrow> Xn = X\<lparr>rows := map (\<lambda>i. rows X ! i) idx\<rparr>)"
proof -
  from assms obtain idx g1 where ch: "choice g (flatnonzero_eq y c) k = (Inr idx, g1)"
    by (auto simp: resample_class_def Let_def split: prod.splits sum.splits)
  note c = choice_Inr [OF ch]
  have s: "set idx \<subseteq> {i. i < length y \<and> y ! i = c}"
    using c(3) by (simp add: set_flatnonzero_eq)
  show ?thesis
  proof (cases "smoothed_bootstrap self")
    case True
    with assms ch obtain Xn where
      b: "smoothed_block (shrinkage_attr self) X c (flatnonzero_eq y c) idx k g1 = (Inr Xn, g')"
      and a: "acc' = (si @ idx, Xs @ [Xn], ys @ [map (\<lambda>i. y ! i) idx])"
      by (auto simp: resample_class_def Let_def dest!: fancy_index_Inr
               split: prod.splits sum.splits)
    have "length (rows Xn) = length idx"
      using smoothed_block_Inr [OF b] c(2) by simp
    then show ?thesis using a c(2) s True by blast
  next
    case False
    with assms ch have
      a: "acc' = (si @ idx, Xs @ [X\<lparr>rows := map (\<lambda>i. rows X ! i) idx\<rparr>], ys @ [map (\<lambda>i. y ! i) idx])"
      by (auto simp: resample_class_def Let_def dest!: fancy_index_Inr safe_indexing_Inr
               split: prod.splits sum.splits)
    then show ?thesis using c(2) s False by simp
  qed
qed

lemma resample_loop_Inr:
  assumes "resample_loop self X y items (si, Xs, ys) g = (Inr (si', Xs', ys'), g')"
  shows "\<exists>blocks Xnew.
           si' = si @ concat blocks \<and> Xs' = Xs @ Xnew \<and>
           ys' = ys @ map (map (\<lambda>i. y ! i)) blocks \<and>
           list_all2 (\<lambda>item idx. length idx = nat (snd item) \<and>
                        set idx \<subseteq> {i. i < length y \<and> y ! i = fst item}) items blocks \<and>
           list_all2 (\<lambda>idx Xn. length (rows Xn) = length idx \<and>
                        (\<not> smoothed_bootstrap self \<longrightarrow>
                           Xn = X\<lparr>rows := map (\<lambda>i. rows X ! i) idx\<rparr>)) blocks Xnew"
  using assms
proof (induction items arbitrary: si Xs ys g)
  case Nil
  then show ?case by simp
next
  case (Cons item items)
  obtain c k where item: "item = (c, k)" by (cases item)
  from Cons.prems obtain acc1 g1 where
    st: "resample_class self X y (c, k) (si, Xs, ys) g = (Inr acc1, g1)"
    and lp: "resample_loop self X y items acc1 g1 = (Inr (si', Xs', ys'), g')"
    by (auto simp: item split: prod.splits sum.splits)
  from resample_class_Inr [OF st] obtain idx Xn where
    a: "acc1 = (si @ idx, Xs @ [Xn], ys @ [map (\<lambda>i. y ! i) idx])"
    and p: "length idx = nat k" "set idx \<subseteq> {i. i < length y \<and> y ! i = c}"
       "length (rows Xn) = length idx"
       "\<not> smoothed_bootstrap self \<longrightarrow> Xn = X\<lparr>rows := map (\<lambda>i. rows X ! i) idx\<rparr>"
    by blast
  from Cons.IH [OF lp [unfolded a]] obtain blocks Xnew where
    r: "si' = (si @ idx) @ concat blocks" "Xs' = (Xs @ [Xn]) @ Xnew"
       "ys' = (ys @ [map (\<lambda>i. y ! i) idx]) @ map (map (\<lambda>i. y ! i)) blocks"
       "list_all2 (\<lambda>item idx. length idx = nat (snd item) \<and>
                        set idx \<subseteq> {i. i < length y \<and> y ! i = fst item}) items blocks"
       "list_all2 (\<lambda>idx Xn. length (rows Xn) = length idx \<and>
                        (\<not> smoothed_bootstrap self \<longrightarrow>
                           Xn = X\<lparr>rows := map (\<lambda>i. rows X ! i) idx\<rparr>)) blocks Xnew"
    by blast
  show ?case
    apply (rule exI [of _ "idx # blocks"])
    apply (rule exI [of _ "Xn # Xnew"])
    using r p by (simp add: item)
qed

subsection \<open>What a returning call returns\<close>

lemma validate_shrinkage_Inr:
  "validate_shrinkage self = Inr self1 \<Longrightarrow>
     sampling_strategy_attr self1 = sampling_strategy_attr self \<and>
     smoothed_bootstrap self1 = smoothed_bootstrap self \<and>
     random_state self1 = random_state self \<and>
     shrinkage self1 = shrinkage self \<and>
     sample_indices_attr self1 = sample_indices_attr self"
  by (auto simp: validate_shrinkage_def Let_def split: if_splits shrinkage.splits)

lemma leave_random_state_fields:
  "leave_random_state self np g = (self', np') \<Longrightarrow>
     sample_indices_attr self' = sample_indices_attr self \<and>
     shrinkage_attr self' = shrinkage_attr self \<and>
     sampling_strategy_attr self' = sampling_strategy_attr self \<and>
     smoothed_bootstrap self' = smoothed_bootstrap self \<and>
     shrinkage self' = shrinkage self \<and>
     RandomState np' = RandomState np"
  by (auto simp: leave_random_state_def split: random_state.splits)

lemma fit_resample_Inr:
  assumes "fit_resample np self X y = (Inr (Xr, yr), self', np')"
  shows "\<exists>blocks Xnew.
           sample_indices_attr self' = Some ([0..<length (rows X)] @ concat blocks) \<and>
           Xr = \<lparr>storage = storage X, rows = rows X @ concat (map rows Xnew)\<rparr> \<and>
           yr = y @ concat (map (map (\<lambda>i. y ! i)) blocks) \<and>
           list_all2 (\<lambda>item idx. length idx = nat (snd item) \<and>
                        set idx \<subseteq> {i. i < length y \<and> y ! i = fst item})
             (sampling_strategy_attr self) blocks \<and>
           list_all2 (\<lambda>idx Xn. length (rows Xn) = length idx \<and>
                        (\<not> smoothed_bootstrap self \<longrightarrow>
                           Xn = X\<lparr>rows := map (\<lambda>i. rows X ! i) idx\<rparr>)) blocks Xnew"
proof -
  from assms obtain self1 where v: "validate_shrinkage self = Inr self1"
    by (auto simp: fit_resample_def Let_def split: sum.splits)
  note f = validate_shrinkage_Inr [OF v]
  from assms v obtain si Xs ys g where
    lp: "resample_loop self1 X y (sampling_strategy_attr self1)
           ([0..<length (rows X)], [X], [y]) (check_random_state np (random_state self)) =
           (Inr (si, Xs, ys), g)"
    and out: "Xr = vstack (storage X) Xs" "yr = concat ys"
    and st: "leave_random_state (self1\<lparr>sample_indices_attr := Some si\<rparr>) np g = (self', np')"
    by (auto simp: fit_resample_def Let_def shape_def split: sum.splits prod.splits)
  from resample_loop_Inr [OF lp] obtain blocks Xnew where
    r: "si = [0..<length (rows X)] @ concat blocks" "Xs = [X] @ Xnew"
       "ys = [y] @ map (map (\<lambda>i. y ! i)) blocks"
       "list_all2 (\<lambda>item idx. length idx = nat (snd item) \<and>
                        set idx \<subseteq> {i. i < length y \<and> y ! i = fst item})
             (sampling_strategy_attr self1) blocks"
       "list_all2 (\<lambda>idx Xn. length (rows Xn) = length idx \<and>
                        (\<not> smoothed_bootstrap self1 \<longrightarrow>
                           Xn = X\<lparr>rows := map (\<lambda>i. rows X ! i) idx\<rparr>)) blocks Xnew"
    by blast
  have "sample_indices_attr self' = Some si"
    using leave_random_state_fields [OF st] by simp
  then show ?thesis
    apply (intro exI [of _ blocks] exI [of _ Xnew])
    using r out f by (simp add: vstack_def)
qed

lemma blocks_rows_length:
  "list_all2 (\<lambda>idx Xn. length (rows Xn) = length idx \<and> Q idx Xn) blocks Xnew \<Longrightarrow>
   length (concat (map rows Xnew)) = length (concat blocks)"
  by (induction blocks Xnew rule: list_all2_induct) auto

lemma ratio_sample_class_Inr:
  assumes "ratio_sample_class X y item (Xs, ys) g = (Inr (Xs', ys'), g')"
  shows "\<exists>Xn yn. Xs' = Xs @ Xn \<and> ys' = ys @ yn \<and> length Xn = length yn \<and> length X = length y"
  using assms
  by (auto simp: ratio_sample_class_def Let_def mask_eq_def
           dest!: fancy_index_Inr
           split: prod.splits sum.splits if_splits)

lemma ratio_sample_loop_Inr:
  assumes "ratio_sample_loop X y items (Xs, ys) g = (Inr (Xs', ys'), g')"
  shows "\<exists>Xn yn. Xs' = Xs @ Xn \<and> ys' = ys @ yn \<and> length Xn = length yn"
  using assms
proof (induction items arbitrary: Xs ys g)
  case Nil
  then show ?case by simp
next
  case (Cons item items)
  from Cons.prems obtain Xs1 ys1 g1 where
    st: "ratio_sample_class X y item (Xs, ys) g = (Inr (Xs1, ys1), g1)"
    and lp: "ratio_sample_loop X y items (Xs1, ys1) g1 = (Inr (Xs', ys'), g')"
    by (auto split: prod.splits sum.splits)
  from ratio_sample_class_Inr [OF st] obtain Xn yn where
    a: "Xs1 = Xs @ Xn" "ys1 = ys @ yn" "length Xn = length yn" by blast
  from Cons.IH [OF lp] obtain Xm ym where
    b: "Xs' = Xs1 @ Xm" "ys' = ys1 @ ym" "length Xm = length ym" by blast
  show ?case
    apply (intro exI [of _ "Xn @ Xm"] exI [of _ "yn @ ym"])
    using a b by simp
qed

lemma ratio_sample_Inr:
  assumes "ratio_sample np self X y = Inr (Xr, yr)"
  shows "\<exists>Xn yn. Xr = X @ Xn \<and> yr = y @ yn \<and> length Xn = length yn"
proof -
  from assms obtain g' where
    "ratio_sample_loop X y (ratio_attr self) (X, y)
       (check_random_state np (ratio_random_state self)) = (Inr (Xr, yr), g')"
    by (cases "ratio_sample_loop X y (ratio_attr self) (X, y)
       (check_random_state np (ratio_random_state self))") (auto simp: ratio_sample_def)
  from ratio_sample_loop_Inr [OF this] show ?thesis .
qed

text \<open>
  C9. When the feature matrix and the label vector have one row count and the call
  returns, \<open>sample_indices_\<close> holds every original row index \<open>0 .. n - 1\<close> and the returned
  features and labels have equal row counts. The earlier sampler keeps no index array; its
  returned features and labels have equal row counts as well.
\<close>

theorem originals_kept_and_rows_aligned:
  assumes "length (rows X) = length y"
  shows "(\<forall>Xr yr self' np'. fit_resample np self X y = (Inr (Xr, yr), self', np') \<longrightarrow>
            (\<exists>si. sample_indices_attr self' = Some si \<and>
                   (\<forall>i < length (rows X). i \<in> set si)) \<and>
            length (rows Xr) = length yr) \<and>
         (length X0 = length y \<longrightarrow>
            (\<forall>Xr yr. ratio_sample np self0 X0 y = Inr (Xr, yr) \<longrightarrow> length Xr = length yr))"
proof -
  have a: "(\<exists>si. sample_indices_attr self' = Some si \<and>
                   (\<forall>i < length (rows X). i \<in> set si)) \<and>
            length (rows Xr) = length yr"
    if r: "fit_resample np self X y = (Inr (Xr, yr), self', np')" for Xr yr self' np'
  proof -
    from fit_resample_Inr [OF r] obtain blocks Xnew where
      b: "sample_indices_attr self' = Some ([0..<length (rows X)] @ concat blocks)"
         "Xr = \<lparr>storage = storage X, rows = rows X @ concat (map rows Xnew)\<rparr>"
         "yr = y @ concat (map (map (\<lambda>i. y ! i)) blocks)"
         "list_all2 (\<lambda>idx Xn. length (rows Xn) = length idx \<and>
                        (\<not> smoothed_bootstrap self \<longrightarrow>
                           Xn = X\<lparr>rows := map (\<lambda>i. rows X ! i) idx\<rparr>)) blocks Xnew"
      by blast
    have "length (concat (map (map (\<lambda>i. y ! i)) blocks)) = length (concat blocks)"
      by (simp add: length_concat comp_def)
    then have "length (rows Xr) = length yr"
      using b(2,3) blocks_rows_length [OF b(4)] assms by simp
    then show ?thesis using b(1) by simp
  qed
  have c: "length Xr = length yr"
    if "length X0 = length y" "ratio_sample np self0 X0 y = Inr (Xr, yr)" for Xr yr
    using ratio_sample_Inr [OF that(2)] that(1) by auto
  show ?thesis using a c by blast
qed

subsection \<open>The example run\<close>

lemma example_run:
  "fit_resample example_numpy example_sampler example_X example_y
   = (Inr (\<lparr>storage = ndarray, rows = [[10], [11], [12], [13], [14], [11], [12], [12]]\<rparr>,
           [0, 1, 2, 1, 0, 1, 2, 2]),
      example_sampler\<lparr>sample_indices_attr := Some [0, 1, 2, 3, 4, 1, 2, 2]\<rparr>,
      example_numpy)"
  by (simp add: fit_resample_def validate_shrinkage_def check_random_state_def shape_def
        resample_class_def flatnonzero_eq_def choice_def randint_def safe_indexing_def
        fancy_index_def vstack_def leave_random_state_def Let_def numeral_2_eq_2)

lemma example_ratio_run:
  "ratio_sample example_numpy example_ratio_sampler
     [[10], [11], [12], [13], [14 :: real]] example_y
   = Inr ([[10], [11], [12], [13], [14], [11], [12], [12]], [0, 1, 2, 1, 0, 1, 2, 2])"
  by (simp add: ratio_sample_def ratio_sample_class_def check_random_state_def
        randint_low_high_def randint_def mask_eq_def flatnonzero_eq_def fancy_index_def
        Let_def numeral_2_eq_2)

subsection \<open>When the call returns\<close>

lemma smoothing_matrix_succeeds:
  assumes "rows X \<noteq> []" "\<forall>i \<in> set tci. i < length (rows X)" "map_of d c = Some s"
  shows "\<exists>M. smoothing_matrix (Some d) X c tci = Inr M"
  using assms
  by (simp add: smoothing_matrix_def shape_def smoothing_constant_def safe_indexing_def Let_def)

lemma smoothed_block_succeeds:
  assumes "rows X \<noteq> []" "\<forall>i \<in> set tci. i < length (rows X)" "map_of d c = Some s"
    "\<forall>i \<in> set idx. i < length (rows X)"
  shows "\<exists>Xn g'. smoothed_block (Some d) X c tci idx k g = (Inr Xn, g')"
proof -
  from smoothing_matrix_succeeds [OF assms(1-3)] obtain M where
    "smoothing_matrix (Some d) X c tci = Inr M" by blast
  then show ?thesis
    using assms(4) by (simp add: smoothed_block_def safe_indexing_def split: prod.splits)
qed

lemma resample_class_succeeds:
  assumes "length y \<le> length (rows X)" "0 \<le> k" "k \<noteq> 0 \<longrightarrow> c \<in> set y"
    "smoothed_bootstrap self \<longrightarrow>
       rows X \<noteq> [] \<and> (\<exists>d s. shrinkage_attr self = Some d \<and> map_of d c = Some s)"
  shows "\<exists>acc' g'. resample_class self X y (c, k) acc g = (Inr acc', g')"
proof -
  obtain si Xs ys where acc: "acc = (si, Xs, ys)" by (cases acc)
  from assms(2,3) obtain idx g1 where
    ch: "choice g (flatnonzero_eq y c) k = (Inr idx, g1)"
    using choice_succeeds [of k "flatnonzero_eq y c" g] by (auto simp: flatnonzero_eq_Nil)
  have "set idx \<subseteq> {i. i < length y \<and> y ! i = c}"
    using choice_Inr(3) [OF ch] by (simp add: set_flatnonzero_eq)
  then have b: "\<forall>i \<in> set idx. i < length y" "\<forall>i \<in> set idx. i < length (rows X)"
    using assms(1) by auto
  have t: "\<forall>i \<in> set (flatnonzero_eq y c). i < length (rows X)"
    using assms(1) by (auto simp: set_flatnonzero_eq)
  have "\<exists>acc' g'. resample_class self X y (c, k) (si, Xs, ys) g = (Inr acc', g')"
  proof (cases "smoothed_bootstrap self")
    case False
    then show ?thesis
      using ch b by (simp add: resample_class_def Let_def safe_indexing_def fancy_index_def)
  next
    case True
    with assms(4) obtain d s where
      d: "rows X \<noteq> []" "shrinkage_attr self = Some d" "map_of d c = Some s" by blast
    from smoothed_block_succeeds [OF d(1) t d(3) b(2)] obtain Xn g2 where
      "smoothed_block (Some d) X c (flatnonzero_eq y c) idx k g1 = (Inr Xn, g2)" by blast
    then show ?thesis
      using True ch b(1) d(2) by (simp add: resample_class_def Let_def fancy_index_def)
  qed
  then show ?thesis by (simp add: acc)
qed

lemma resample_class_fields:
  "smoothed_bootstrap a = smoothed_bootstrap b \<Longrightarrow>
   (smoothed_bootstrap a \<longrightarrow> shrinkage_attr a = shrinkage_attr b) \<Longrightarrow>
   resample_class a X y item acc g = resample_class b X y item acc g"
  by (cases "smoothed_bootstrap a")
     (auto simp: resample_class_def Let_def split: prod.splits sum.splits)

lemma resample_loop_fields:
  "smoothed_bootstrap a = smoothed_bootstrap b \<Longrightarrow>
   (smoothed_bootstrap a \<longrightarrow> shrinkage_attr a = shrinkage_attr b) \<Longrightarrow>
   resample_loop a X y items acc g = resample_loop b X y items acc g"
  by (induction items arbitrary: acc g)
     (simp_all add: resample_class_fields [of a b] split: prod.splits sum.splits)

lemma resample_loop_succeeds:
  assumes "length y \<le> length (rows X)"
    "\<forall>item \<in> set items. 0 \<le> snd item \<and> (snd item \<noteq> 0 \<longrightarrow> fst item \<in> set y)"
    "smoothed_bootstrap self \<longrightarrow>
       rows X \<noteq> [] \<and>
       (\<exists>d. shrinkage_attr self = Some d \<and> (\<forall>item \<in> set items. map_of d (fst item) \<noteq> None))"
  shows "\<exists>acc' g'. resample_loop self X y items acc g = (Inr acc', g')"
  using assms(2,3)
proof (induction items arbitrary: acc g)
  case Nil
  show ?case by (intro exI [of _ acc] exI [of _ g]) simp
next
  case (Cons item items)
  obtain c k where item: "item = (c, k)" by (cases item)
  from Cons.prems(1) have k: "0 \<le> k" "k \<noteq> 0 \<longrightarrow> c \<in> set y" by (auto simp: item)
  have s: "smoothed_bootstrap self \<longrightarrow>
       rows X \<noteq> [] \<and> (\<exists>d s. shrinkage_attr self = Some d \<and> map_of d c = Some s)"
    using Cons.prems(2) by (auto simp: item)
  from resample_class_succeeds [OF assms(1) k s] obtain acc1 g1 where
    st: "resample_class self X y (c, k) acc g = (Inr acc1, g1)" by blast
  from Cons.IH [of acc1 g1] Cons.prems obtain acc' g' where
    "resample_loop self X y items acc1 g1 = (Inr acc', g')" by auto
  then show ?case using st by (intro exI [of _ acc'] exI [of _ g']) (simp add: item)
qed

lemma map_of_constant:
  "c \<in> fst ` set items \<Longrightarrow> map_of (map (\<lambda>(klass, n). (klass, s)) items) c = Some s"
  by (induction items) auto

lemma validate_shrinkage_covers:
  assumes "smoothed_bootstrap self"
    "\<forall>d. shrinkage self = Dict d \<longrightarrow> fst ` set (sampling_strategy_attr self) \<subseteq> fst ` set d"
  shows "\<exists>self1 d. validate_shrinkage self = Inr self1 \<and> shrinkage_attr self1 = Some d \<and>
           (\<forall>item \<in> set (sampling_strategy_attr self). map_of d (fst item) \<noteq> None)"
proof (cases "shrinkage self")
  case (Real s)
  then show ?thesis
    using assms(1) by (auto simp: validate_shrinkage_def map_of_constant)
next
  case (Dict d)
  with assms(2) have c: "fst ` set (sampling_strategy_attr self) \<subseteq> fst ` set d" by simp
  then have "filter (\<lambda>k. k \<notin> set (map fst d)) (map fst (sampling_strategy_attr self)) = []"
    by (auto simp: filter_empty_conv)
  moreover have "\<forall>item \<in> set (sampling_strategy_attr self). map_of d (fst item) \<noteq> None"
    using c by (auto simp: map_of_eq_None_iff)
  ultimately show ?thesis
    using assms(1) Dict by (simp add: validate_shrinkage_def)
qed

lemma fit_resample_succeeds:
  assumes "length y \<le> length (rows X)"
    "\<forall>item \<in> set (sampling_strategy_attr self).
        0 \<le> snd item \<and> (snd item \<noteq> 0 \<longrightarrow> fst item \<in> set y)"
    "smoothed_bootstrap self \<longrightarrow>
       rows X \<noteq> [] \<and>
       (\<forall>d. shrinkage self = Dict d \<longrightarrow> fst ` set (sampling_strategy_attr self) \<subseteq> fst ` set d)"
  shows "\<exists>Xr yr self' np'. fit_resample np self X y = (Inr (Xr, yr), self', np')"
proof -
  obtain self1 where v: "validate_shrinkage self = Inr self1"
    and s: "smoothed_bootstrap self1 \<longrightarrow>
       rows X \<noteq> [] \<and>
       (\<exists>d. shrinkage_attr self1 = Some d \<and>
            (\<forall>item \<in> set (sampling_strategy_attr self1). map_of d (fst item) \<noteq> None))"
  proof (cases "smoothed_bootstrap self")
    case True
    with assms(3) validate_shrinkage_covers [of self] obtain self1 d where
      a: "validate_shrinkage self = Inr self1" "shrinkage_attr self1 = Some d"
        "\<forall>item \<in> set (sampling_strategy_attr self). map_of d (fst item) \<noteq> None"
      by blast
    show ?thesis
      using that [of self1] a assms(3) True validate_shrinkage_Inr [OF a(1)] by auto
  next
    case False
    then show ?thesis using that [of self] by (simp add: validate_shrinkage_def)
  qed
  note f = validate_shrinkage_Inr [OF v]
  have i: "\<forall>item \<in> set (sampling_strategy_attr self1).
        0 \<le> snd item \<and> (snd item \<noteq> 0 \<longrightarrow> fst item \<in> set y)"
    using assms(2) f by simp
  from resample_loop_succeeds [OF assms(1) i s] obtain acc' g' where
    "resample_loop self1 X y (sampling_strategy_attr self1) ([0..<fst (shape X)], [X], [y])
       (check_random_state np (random_state self)) = (Inr acc', g')" by blast
  then show ?thesis
    using v by (cases acc') (auto simp: fit_resample_def Let_def split: prod.splits)
qed

subsection \<open>Original rows are kept\<close>

theorem originals_kept_and_rows_aligned_witness:
  "length (rows example_X) = length example_y \<and>
   fst (fit_resample example_numpy example_sampler example_X example_y)
     = Inr (\<lparr>storage = ndarray, rows = [[10], [11], [12], [13], [14], [11], [12], [12]]\<rparr>,
            [0, 1, 2, 1, 0, 1, 2, 2]) \<and>
   (\<exists>si. sample_indices_attr
            (fst (snd (fit_resample example_numpy example_sampler example_X example_y)))
            = Some si \<and> {0, 1, 2, 3, 4} \<subseteq> set si) \<and>
   length [[10], [11], [12], [13], [14], [11], [12], [12 :: real]]
     = length [0, 1, 2, 1, 0, 1, 2, 2 :: nat] \<and>
   ratio_sample example_numpy example_ratio_sampler
       [[10], [11], [12], [13], [14 :: real]] example_y
     = Inr ([[10], [11], [12], [13], [14], [11], [12], [12]], [0, 1, 2, 1, 0, 1, 2, 2])"
proof -
  have l: "length (rows example_X) = length example_y" by simp
  note t = originals_kept_and_rows_aligned [OF l, of example_numpy example_sampler
      "[[10], [11], [12], [13], [14 :: real]]" example_ratio_sampler]
  from t example_run obtain si where
    s: "sample_indices_attr (example_sampler\<lparr>sample_indices_attr := Some [0, 1, 2, 3, 4, 1, 2, 2]\<rparr>)
          = Some si"
       "\<forall>i < length (rows example_X). i \<in> set si"
    by blast
  have "{0, 1, 2, 3, 4} \<subseteq> set si" using s(2) by simp
  then show ?thesis using s(1) example_run example_ratio_run by simp
qed

subsection \<open>Equalizing 100 and 30 rows\<close>

lemma count_list_all_eq: "\<forall>x \<in> set xs. f x = b \<Longrightarrow> count_list (map f xs) b = length xs"
  by (induction xs) auto

lemma count_list_none_eq: "\<forall>x \<in> set xs. f x \<noteq> a \<Longrightarrow> count_list (map f xs) a = 0"
  by (induction xs) auto

lemma equalize_run:
  assumes "count_list y A = 100" "count_list y B = 30" "length y = 130"
    "length (rows X) = 130" "sampling_strategy_attr self = [(B, 70)]"
    "smoothed_bootstrap self \<longrightarrow> (\<forall>d. shrinkage self = Dict d \<longrightarrow> B \<in> fst ` set d)"
  shows "\<exists>Xr yr self' np' idx.
           fit_resample np self X y = (Inr (Xr, yr), self', np') \<and>
           length (rows Xr) = 200 \<and> length yr = 200 \<and>
           count_list yr A = 100 \<and> count_list yr B = 100 \<and>
           sample_indices_attr self' = Some ([0..<130] @ idx) \<and> length idx = 70 \<and>
           (\<forall>j \<in> set idx. j < 130 \<and> y ! j = B)"
proof -
  have ab: "A \<noteq> B" using assms(1,2) by auto
  have "count_list y B \<noteq> 0" using assms(2) by simp
  then have b: "B \<in> set y" by (metis count_list_0_iff)
  have x: "rows X \<noteq> []" using assms(4) by auto
  from fit_resample_succeeds [of y X self np] assms b x obtain Xr yr self' np' where
    r: "fit_resample np self X y = (Inr (Xr, yr), self', np')" by auto
  from fit_resample_Inr [OF r] obtain blocks Xnew where
    f: "sample_indices_attr self' = Some ([0..<length (rows X)] @ concat blocks)"
       "Xr = \<lparr>storage = storage X, rows = rows X @ concat (map rows Xnew)\<rparr>"
       "yr = y @ concat (map (map (\<lambda>i. y ! i)) blocks)"
       "list_all2 (\<lambda>item idx. length idx = nat (snd item) \<and>
                        set idx \<subseteq> {i. i < length y \<and> y ! i = fst item})
             (sampling_strategy_attr self) blocks"
       "list_all2 (\<lambda>idx Xn. length (rows Xn) = length idx \<and>
                        (\<not> smoothed_bootstrap self \<longrightarrow>
                           Xn = X\<lparr>rows := map (\<lambda>i. rows X ! i) idx\<rparr>)) blocks Xnew"
    by blast
  from f(4) assms(5) obtain idx where
    i: "blocks = [idx]" "length idx = 70" "set idx \<subseteq> {i. i < length y \<and> y ! i = B}"
    by (auto simp: list_all2_Cons1)
  have m: "\<forall>j \<in> set idx. j < 130 \<and> y ! j = B" using i(3) assms(3) by auto
  have yr: "yr = y @ map (\<lambda>i. y ! i) idx" using f(3) i(1) by simp
  have cB: "count_list yr B = 100"
    using yr assms(2) i(2) m count_list_all_eq [of idx "\<lambda>i. y ! i" B] by simp
  have cA: "count_list yr A = 100"
    using yr assms(1) m ab count_list_none_eq [of idx "\<lambda>i. y ! i" A] by simp
  have lx: "length (rows Xr) = 200"
    using f(2) blocks_rows_length [OF f(5)] i(1,2) assms(4) by simp
  have ly: "length yr = 200" using yr assms(3) i(2) by simp
  have si: "sample_indices_attr self' = Some ([0..<130] @ idx)"
    using f(1) i(1) assms(4) by simp
  show ?thesis using r lx ly cA cB si i(2) m by blast
qed

text \<open>
  C3, as the code has it. With 100 rows of class \<open>A\<close>, 30 rows of class \<open>B\<close> and the resolved
  strategy "70 more rows of \<open>B\<close>", the call returns 200 rows, 100 of each class, and
  \<open>sample_indices_\<close> has 200 entries: the original indices \<open>0 .. 129\<close> followed by 70
  indices of original \<open>B\<close> rows. This holds for every seed.
\<close>

theorem equalize_100_30:
  assumes "count_list y A = 100" "count_list y B = 30" "length y = 130"
    "length (rows X) = 130" "sampling_strategy_attr self = [(B, 70)]"
    "smoothed_bootstrap self \<longrightarrow> (\<forall>d. shrinkage self = Dict d \<longrightarrow> B \<in> fst ` set d)"
  shows "\<exists>Xr yr self' np' idx.
           fit_resample np self X y = (Inr (Xr, yr), self', np') \<and>
           length (rows Xr) = 200 \<and> length yr = 200 \<and>
           count_list yr A = 100 \<and> count_list yr B = 100 \<and>
           sample_indices_attr self' = Some ([0..<130] @ idx) \<and> length idx = 70 \<and>
           (\<forall>j \<in> set idx. j < 130 \<and> y ! j = B)"
  using assms by (rule equalize_run)

lemma count_list_replicate: "count_list (replicate n a) b = (if a = b then n else 0)"
  by (induction n) auto

theorem equalize_100_30_witness:
  "\<exists>Xr yr self' np' idx.
     fit_resample example_numpy (example_sampler\<lparr>sampling_strategy_attr := [(1, 70)]\<rparr>)
         \<lparr>storage = ndarray, rows = replicate 130 [0]\<rparr>
         (replicate 100 0 @ replicate 30 1)
       = (Inr (Xr, yr), self', np') \<and>
     length (rows Xr) = 200 \<and> length yr = 200 \<and>
     count_list yr 0 = 100 \<and> count_list yr 1 = 100 \<and>
     sample_indices_attr self' = Some ([0..<130] @ idx) \<and> length idx = 70 \<and>
     (\<forall>j \<in> set idx. j < 130 \<and> (replicate 100 0 @ replicate 30 (1 :: nat)) ! j = 1)"
  by (rule equalize_100_30) (simp_all add: count_list_replicate)

text \<open>
  C3, as the specification states it, fails: for that input \<open>sample_indices_\<close> has 200
  entries, not 70, and its first entry is the index of a row of class \<open>A\<close> (here 0).
\<close>

theorem sample_indices_length_counterexample:
  "map_option length
     (sample_indices_attr (fst (snd
        (fit_resample example_numpy (example_sampler\<lparr>sampling_strategy_attr := [(1, 70)]\<rparr>)
           \<lparr>storage = ndarray, rows = replicate 130 [0]\<rparr>
           (replicate 100 0 @ replicate 30 1))))) = Some 200 \<and>
   map_option (\<lambda>si. (replicate 100 0 @ replicate 30 (1 :: nat)) ! (si ! 0))
     (sample_indices_attr (fst (snd
        (fit_resample example_numpy (example_sampler\<lparr>sampling_strategy_attr := [(1, 70)]\<rparr>)
           \<lparr>storage = ndarray, rows = replicate 130 [0]\<rparr>
           (replicate 100 0 @ replicate 30 1))))) = Some 0"
proof -
  let ?y = "replicate 100 0 @ replicate 30 (1 :: nat)"
  let ?r = "fit_resample example_numpy (example_sampler\<lparr>sampling_strategy_attr := [(1, 70)]\<rparr>)
           \<lparr>storage = ndarray, rows = replicate 130 [0]\<rparr> ?y"
  have "\<exists>Xr yr self' np' idx.
     ?r = (Inr (Xr, yr), self', np') \<and>
     length (rows Xr) = 200 \<and> length yr = 200 \<and>
     count_list yr 0 = 100 \<and> count_list yr 1 = 100 \<and>
     sample_indices_attr self' = Some ([0..<130] @ idx) \<and> length idx = 70 \<and>
     (\<forall>j \<in> set idx. j < 130 \<and> ?y ! j = 1)"
    by (rule equalize_run) (simp_all add: count_list_replicate)
  then obtain Xr yr self' np' idx where
    r: "?r = (Inr (Xr, yr), self', np')"
    and s: "sample_indices_attr self' = Some ([0..<130] @ idx)" "length idx = 70"
    by blast
  have h: "([0..<130] @ idx) ! 0 = 0" by (simp add: nth_append)
  show ?thesis unfolding r using s h by (simp add: nth_append)
qed

subsection \<open>Shrinkage checks and seeds\<close>

text \<open>
  C4. With smoothing on and the shrinkage given per class, a class of the sampling strategy
  that the mapping omits makes the call raise the bare \<open>ValueError\<close>, and the sampler and
  the library state are exactly as before the call: no index was drawn, \<open>sample_indices_\<close>
  and \<open>shrinkage_\<close> were not assigned, and no value stood in for the missing entry.
\<close>

theorem missing_shrinkage_raises_first:
  assumes "smoothed_bootstrap self" "shrinkage self = Dict d"
    "c \<in> fst ` set (sampling_strategy_attr self)" "c \<notin> fst ` set d"
  shows "fit_resample np self X y = (Inl (ValueError []), self, np)"
proof -
  have "c \<in> set (filter (\<lambda>k. k \<notin> set (map fst d)) (map fst (sampling_strategy_attr self)))"
    using assms(3,4) by auto
  then have "filter (\<lambda>k. k \<notin> set (map fst d)) (map fst (sampling_strategy_attr self)) \<noteq> []"
    by (metis empty_iff empty_set)
  then have "validate_shrinkage self = Inl (ValueError [])"
    using assms(1,2) by (simp add: validate_shrinkage_def)
  then show ?thesis by (simp add: fit_resample_def)
qed

theorem missing_shrinkage_raises_first_witness:
  "fit_resample example_numpy
     (example_sampler\<lparr>smoothed_bootstrap := True, shrinkage := Dict [(1, 1 / 2)]\<rparr>)
     example_X example_y
   = (Inl (ValueError []),
      example_sampler\<lparr>smoothed_bootstrap := True, shrinkage := Dict [(1, 1 / 2)]\<rparr>,
      example_numpy)"
  by (rule missing_shrinkage_raises_first [where c = 2 and d = "[(1, 1 / 2)]"]) simp_all

lemma validate_shrinkage_same:
  assumes "smoothed_bootstrap a = smoothed_bootstrap b" "shrinkage a = shrinkage b"
    "sampling_strategy_attr a = sampling_strategy_attr b"
  shows "(\<exists>e. validate_shrinkage a = Inl e \<and> validate_shrinkage b = Inl e) \<or>
         (\<exists>v. validate_shrinkage a = Inr (a\<lparr>shrinkage_attr := v\<rparr>) \<and>
              validate_shrinkage b = Inr (b\<lparr>shrinkage_attr := v\<rparr>)) \<or>
         (validate_shrinkage a = Inr a \<and> validate_shrinkage b = Inr b \<and>
          \<not> smoothed_bootstrap a)"
  using assms
  by (cases "shrinkage b"; cases "smoothed_bootstrap b")
     (auto simp: validate_shrinkage_def Let_def)

lemma fit_resample_seeded_result:
  assumes "random_state a = Seed s" "random_state b = Seed s"
    "smoothed_bootstrap a = smoothed_bootstrap b" "shrinkage a = shrinkage b"
    "sampling_strategy_attr a = sampling_strategy_attr b" "RandomState npa = RandomState npb"
  shows "fst (fit_resample npa a X y) = fst (fit_resample npb b X y)"
    and "fst (fit_resample npa a X y) = Inr out \<Longrightarrow>
         sample_indices_attr (fst (snd (fit_resample npa a X y))) =
         sample_indices_attr (fst (snd (fit_resample npb b X y)))"
proof -
  have g: "check_random_state npa (random_state a) = check_random_state npb (random_state b)"
    using assms(1,2,6) by (simp add: check_random_state_def)
  have l: "leave_random_state a' npa g = (a', npa)" if "random_state a' = Seed s" for a' g
    using that by (simp add: leave_random_state_def)
  have l': "leave_random_state b' npb g = (b', npb)" if "random_state b' = Seed s" for b' g
    using that by (simp add: leave_random_state_def)
  from validate_shrinkage_same [OF assms(3-5)]
  consider (err) e where "validate_shrinkage a = Inl e" "validate_shrinkage b = Inl e"
    | (ok) a1 b1 where "validate_shrinkage a = Inr a1" "validate_shrinkage b = Inr b1"
        "smoothed_bootstrap a1 = smoothed_bootstrap b1"
        "smoothed_bootstrap a1 \<longrightarrow> shrinkage_attr a1 = shrinkage_attr b1"
        "sampling_strategy_attr a1 = sampling_strategy_attr b1"
        "random_state a1 = Seed s" "random_state b1 = Seed s"
  proof (elim disjE exE conjE)
    fix e assume "validate_shrinkage a = Inl e" "validate_shrinkage b = Inl e"
    then show ?thesis by (rule err)
  next
    fix v assume v: "validate_shrinkage a = Inr (a\<lparr>shrinkage_attr := v\<rparr>)"
      "validate_shrinkage b = Inr (b\<lparr>shrinkage_attr := v\<rparr>)"
    show ?thesis by (rule ok [OF v]) (simp_all add: assms)
  next
    assume v: "validate_shrinkage a = Inr a" "validate_shrinkage b = Inr b"
      "\<not> smoothed_bootstrap a"
    show ?thesis by (rule ok [OF v(1,2)]) (use v(3) in \<open>simp_all add: assms\<close>)
  qed
  then have "fst (fit_resample npa a X y) = fst (fit_resample npb b X y) \<and>
         (\<forall>out. fst (fit_resample npa a X y) = Inr out \<longrightarrow>
         sample_indices_attr (fst (snd (fit_resample npa a X y))) =
         sample_indices_attr (fst (snd (fit_resample npb b X y))))"
  proof cases
    case err
    then show ?thesis by (simp add: fit_resample_def)
  next
    case ok
    have lp: "resample_loop a1 X y (sampling_strategy_attr a1) acc gg =
          resample_loop b1 X y (sampling_strategy_attr b1) acc gg" for acc gg
      using resample_loop_fields [OF ok(3,4)] ok(5) by simp
    show ?thesis
      using ok(1,2,6,7) g
      by (auto simp: fit_resample_def Let_def lp l l' leave_random_state_def
               split: prod.splits sum.splits)
  qed
  then show "fst (fit_resample npa a X y) = fst (fit_resample npb b X y)"
    and "fst (fit_resample npa a X y) = Inr out \<Longrightarrow>
         sample_indices_attr (fst (snd (fit_resample npa a X y))) =
         sample_indices_attr (fst (snd (fit_resample npb b X y)))"
    by blast+
qed

lemma fit_resample_seeded_after:
  assumes "random_state self = Seed s" "fit_resample np self X y = (r, self', np')"
  shows "random_state self' = Seed s" "smoothed_bootstrap self' = smoothed_bootstrap self"
    "shrinkage self' = shrinkage self"
    "sampling_strategy_attr self' = sampling_strategy_attr self" "np' = np"
    "r = Inl e \<Longrightarrow> sample_indices_attr self' = sample_indices_attr self"
proof -
  have "random_state self' = Seed s \<and> smoothed_bootstrap self' = smoothed_bootstrap self \<and>
    shrinkage self' = shrinkage self \<and>
    sampling_strategy_attr self' = sampling_strategy_attr self \<and> np' = np \<and>
    (\<forall>e. r = Inl e \<longrightarrow> sample_indices_attr self' = sample_indices_attr self)"
  proof (cases "validate_shrinkage self")
    case (Inl e)
    then show ?thesis using assms by (simp add: fit_resample_def)
  next
    case (Inr self1)
    note f = validate_shrinkage_Inr [OF Inr]
    show ?thesis
      using assms Inr f
      by (auto simp: fit_resample_def Let_def leave_random_state_def
               split: prod.splits sum.splits)
  qed
  then show "random_state self' = Seed s" "smoothed_bootstrap self' = smoothed_bootstrap self"
    "shrinkage self' = shrinkage self"
    "sampling_strategy_attr self' = sampling_strategy_attr self" "np' = np"
    "r = Inl e \<Longrightarrow> sample_indices_attr self' = sample_indices_attr self"
    by blast+
qed

text \<open>
  C5. With an integer seed, a call followed by a second call on the same sampler, with the
  same features and labels, returns the same outcome and leaves the same
  \<open>sample_indices_\<close>. So do two samplers with the same seed, strategy and smoothing
  parameters, whatever the state of the global generator and whatever an earlier fit left
  in them.
\<close>

theorem same_seed_same_output:
  assumes "random_state self = Seed s"
    "fit_resample np self X y = (r1, self1, np1)"
    "fit_resample np1 self1 X y = (r2, self2, np2)"
  shows "r2 = r1 \<and> sample_indices_attr self2 = sample_indices_attr self1 \<and>
         (\<forall>other np'. random_state other = Seed s \<and>
              smoothed_bootstrap other = smoothed_bootstrap self \<and>
              shrinkage other = shrinkage self \<and>
              sampling_strategy_attr other = sampling_strategy_attr self \<and>
              RandomState np' = RandomState np \<longrightarrow>
              fst (fit_resample np' other X y) = r1 \<and>
              (\<forall>out. r1 = Inr out \<longrightarrow>
                 sample_indices_attr (fst (snd (fit_resample np' other X y))) =
                 sample_indices_attr self1))"
proof -
  note a = fit_resample_seeded_after [OF assms(1,2)]
  note b = fit_resample_seeded_after [OF a(1) assms(3)]
  have r: "r2 = r1"
    using fit_resample_seeded_result(1) [of self1 s self np1 np X y] a assms by simp
  have si: "sample_indices_attr self2 = sample_indices_attr self1"
  proof (cases r1)
    case (Inl e)
    then show ?thesis using b(6) [of e] r by simp
  next
    case (Inr out)
    have "fst (fit_resample np1 self1 X y) = Inr out" using assms(3) r Inr by simp
    from fit_resample_seeded_result(2) [of self1 s self np1 np X y out, OF _ _ _ _ _ _ this]
    show ?thesis using a assms by simp
  qed
  have o: "fst (fit_resample np' other X y) = r1 \<and>
              (\<forall>out. r1 = Inr out \<longrightarrow>
                 sample_indices_attr (fst (snd (fit_resample np' other X y))) =
                 sample_indices_attr self1)"
    if "random_state other = Seed s \<and>
              smoothed_bootstrap other = smoothed_bootstrap self \<and>
              shrinkage other = shrinkage self \<and>
              sampling_strategy_attr other = sampling_strategy_attr self \<and>
              RandomState np' = RandomState np" for other np'
    using fit_resample_seeded_result [of other s self np' np X y] that assms(1,2) by auto
  show ?thesis using r si o by blast
qed

theorem same_seed_same_output_witness:
  "random_state example_sampler = Seed 42 \<and>
   fit_resample example_numpy example_sampler example_X example_y
     = (Inr (\<lparr>storage = ndarray, rows = [[10], [11], [12], [13], [14], [11], [12], [12]]\<rparr>,
             [0, 1, 2, 1, 0, 1, 2, 2]),
        example_sampler\<lparr>sample_indices_attr := Some [0, 1, 2, 3, 4, 1, 2, 2]\<rparr>,
        example_numpy) \<and>
   fst (fit_resample example_numpy
          (example_sampler\<lparr>sample_indices_attr := Some [0, 1, 2, 3, 4, 1, 2, 2]\<rparr>)
          example_X example_y)
     = Inr (\<lparr>storage = ndarray, rows = [[10], [11], [12], [13], [14], [11], [12], [12]]\<rparr>,
            [0, 1, 2, 1, 0, 1, 2, 2]) \<and>
   sample_indices_attr (fst (snd (fit_resample example_numpy
          (example_sampler\<lparr>sample_indices_attr := Some [0, 1, 2, 3, 4, 1, 2, 2]\<rparr>)
          example_X example_y)))
     = Some [0, 1, 2, 3, 4, 1, 2, 2]"
proof -
  let ?self1 = "example_sampler\<lparr>sample_indices_attr := Some [0, 1, 2, 3, 4, 1, 2, 2]\<rparr>"
  let ?f = "fit_resample example_numpy ?self1 example_X example_y"
  have s: "random_state example_sampler = Seed 42" by simp
  have f2: "?f = (fst ?f, fst (snd ?f), snd (snd ?f))" by simp
  from same_seed_same_output [OF s example_run f2]
  have "fst ?f = Inr (\<lparr>storage = ndarray,
                        rows = [[10], [11], [12], [13], [14], [11], [12], [12]]\<rparr>,
                      [0, 1, 2, 1, 0, 1, 2, 2])"
    and "sample_indices_attr (fst (snd ?f)) = sample_indices_attr ?self1"
    by blast+
  then show ?thesis using example_run by simp
qed

lemma resample_class_plain_error:
  assumes "\<not> smoothed_bootstrap self" "resample_class self X y item acc g = (Inl e, g')"
  shows "e \<noteq> ValueError [] \<and> e \<noteq> KeyError"
  using assms
  by (auto simp: resample_class_def choice_def safe_indexing_def fancy_index_def Let_def
           split: prod.splits sum.splits if_splits)

lemma resample_loop_plain_error:
  assumes "\<not> smoothed_bootstrap self" "resample_loop self X y items acc g = (Inl e, g')"
  shows "e \<noteq> ValueError [] \<and> e \<noteq> KeyError"
  using assms(2)
proof (induction items arbitrary: acc g)
  case Nil
  then show ?case by simp
next
  case (Cons item items)
  show ?case
  proof (cases "resample_class self X y item acc g")
    case (Pair r g1)
    show ?thesis
    proof (cases r)
      case (Inl e1)
      then show ?thesis
        using Cons.prems Pair resample_class_plain_error [OF assms(1), of X y item acc g e1 g1]
        by simp
    next
      case (Inr acc1)
      then show ?thesis using Cons.prems Pair Cons.IH [of acc1 g1] by simp
    qed
  qed
qed

lemma leave_random_state_shrinkage:
  "leave_random_state (a\<lparr>shrinkage := s\<rparr>) np g =
     (fst (leave_random_state a np g)\<lparr>shrinkage := s\<rparr>, snd (leave_random_state a np g))"
  by (simp add: leave_random_state_def split: random_state.splits)

lemma fit_resample_plain_shrinkage:
  assumes "\<not> smoothed_bootstrap self"
  shows "fit_resample np (self\<lparr>shrinkage := s\<rparr>) X y =
           (fst (fit_resample np self X y),
            fst (snd (fit_resample np self X y))\<lparr>shrinkage := s\<rparr>,
            snd (snd (fit_resample np self X y)))"
proof -
  have v: "validate_shrinkage (self\<lparr>shrinkage := s\<rparr>) = Inr (self\<lparr>shrinkage := s\<rparr>)"
    "validate_shrinkage self = Inr self"
    using assms by (simp_all add: validate_shrinkage_def)
  have lp: "resample_loop (self\<lparr>shrinkage := s\<rparr>) X y items acc g =
        resample_loop self X y items acc g" for items acc g
    using assms by (intro resample_loop_fields) simp_all
  have u: "self\<lparr>shrinkage := s, sample_indices_attr := si\<rparr> =
        self\<lparr>sample_indices_attr := si, shrinkage := s\<rparr>" for si
    by simp
  show ?thesis
    by (simp add: fit_resample_def Let_def v lp check_random_state_def
          leave_random_state_shrinkage u
          split: prod.splits sum.splits)
qed

lemma fit_resample_plain_error:
  assumes "\<not> smoothed_bootstrap self"
  shows "fst (fit_resample np self X y) \<noteq> Inl (ValueError []) \<and>
         fst (fit_resample np self X y) \<noteq> Inl KeyError \<and>
         shrinkage_attr (fst (snd (fit_resample np self X y))) = shrinkage_attr self"
proof -
  have v: "validate_shrinkage self = Inr self"
    using assms by (simp add: validate_shrinkage_def)
  obtain r g where
    l: "resample_loop self X y (sampling_strategy_attr self) ([0..<fst (shape X)], [X], [y])
          (check_random_state np (random_state self)) = (r, g)"
    by (cases "resample_loop self X y (sampling_strategy_attr self)
          ([0..<fst (shape X)], [X], [y]) (check_random_state np (random_state self))")
  show ?thesis
  proof (cases r)
    case (Inl e)
    then show ?thesis
      using v l resample_loop_plain_error [OF assms, of X y _ _ _ e g]
      by (auto simp: fit_resample_def Let_def leave_random_state_def
               split: random_state.splits)
  next
    case (Inr acc)
    then show ?thesis
      using v l
      by (cases acc)
         (auto simp: fit_resample_def Let_def leave_random_state_def
               split: random_state.splits)
  qed
qed

text \<open>
  C10. Without smoothing the shrinkage parameter is not read: for any two values of it,
  also a mapping that omits classes of the sampling strategy, the call has the same
  outcome, leaves the same \<open>sample_indices_\<close> and the same library state, and the outcome
  is neither the error of a missing shrinkage entry nor a failed lookup in the shrinkage
  mapping; \<open>shrinkage_\<close> is not assigned.
\<close>

theorem shrinkage_unread_without_smoothing:
  assumes "\<not> smoothed_bootstrap self"
  shows "fst (fit_resample np (self\<lparr>shrinkage := s1\<rparr>) X y)
           = fst (fit_resample np (self\<lparr>shrinkage := s2\<rparr>) X y) \<and>
         sample_indices_attr (fst (snd (fit_resample np (self\<lparr>shrinkage := s1\<rparr>) X y)))
           = sample_indices_attr (fst (snd (fit_resample np (self\<lparr>shrinkage := s2\<rparr>) X y))) \<and>
         snd (snd (fit_resample np (self\<lparr>shrinkage := s1\<rparr>) X y))
           = snd (snd (fit_resample np (self\<lparr>shrinkage := s2\<rparr>) X y)) \<and>
         fst (fit_resample np (self\<lparr>shrinkage := s1\<rparr>) X y) \<noteq> Inl (ValueError []) \<and>
         fst (fit_resample np (self\<lparr>shrinkage := s1\<rparr>) X y) \<noteq> Inl KeyError \<and>
         shrinkage_attr (fst (snd (fit_resample np (self\<lparr>shrinkage := s1\<rparr>) X y)))
           = shrinkage_attr self"
proof -
  have a: "\<not> smoothed_bootstrap (self\<lparr>shrinkage := s1\<rparr>)" using assms by simp
  show ?thesis
    using fit_resample_plain_shrinkage [OF assms, of np s1 X y]
      fit_resample_plain_shrinkage [OF assms, of np s2 X y]
      fit_resample_plain_error [OF a, of np X y]
    by simp
qed

theorem shrinkage_unread_without_smoothing_witness:
  "\<not> smoothed_bootstrap example_sampler \<and>
   fst (fit_resample example_numpy (example_sampler\<lparr>shrinkage := Dict []\<rparr>) example_X example_y)
     = Inr (\<lparr>storage = ndarray, rows = [[10], [11], [12], [13], [14], [11], [12], [12]]\<rparr>,
            [0, 1, 2, 1, 0, 1, 2, 2]) \<and>
   sample_indices_attr (fst (snd
       (fit_resample example_numpy (example_sampler\<lparr>shrinkage := Dict []\<rparr>) example_X example_y)))
     = Some [0, 1, 2, 3, 4, 1, 2, 2]"
proof -
  have a: "\<not> smoothed_bootstrap example_sampler" by simp
  have e: "example_sampler\<lparr>shrinkage := Real 1\<rparr> = example_sampler" by simp
  from shrinkage_unread_without_smoothing [OF a, of example_numpy "Real 1" example_X example_y
      "Dict []"]
  show ?thesis unfolding e using example_run by simp
qed

subsection \<open>The smoothing matrix\<close>

lemma sqrt_mean_variance_axis: "map sqrt (mean_variance_axis f M) = std f M"
  by (simp add: mean_variance_axis_def std_def)

lemma variance_single: "variance [x] = 0"
  by (simp add: variance_def mean_def)

lemma std_single: "std f [r] = replicate f 0"
  by (simp add: std_def column_def variance_single map_replicate_const)

lemma diagflat_zero: "diagflat (replicate f 0) = replicate f (replicate f 0)"
  by (simp add: diagflat_def list_eq_iff_nth_eq)

lemma dot_zero: "dot Z (replicate f (replicate f 0)) = map (\<lambda>a. replicate f 0) Z"
proof -
  have "(\<Sum>k \<leftarrow> [0..<f]. a ! k * (replicate f (replicate f (0::real)) ! k) ! j) = 0"
    if "j < f" for a :: "real list" and j
  proof -
    have "map (\<lambda>k. a ! k * (replicate f (replicate f (0::real)) ! k) ! j) [0..<f]
            = map (\<lambda>k. 0) [0..<f]"
      using that by (simp add: list_eq_iff_nth_eq)
    then have "(\<Sum>k \<leftarrow> [0..<f]. a ! k * (replicate f (replicate f (0::real)) ! k) ! j)
                 = sum_list (map (\<lambda>k. 0) [0..<f])"
      by (rule arg_cong)
    then show ?thesis by (simp only: sum_list_0)
  qed
  then have "map (\<lambda>j. \<Sum>k \<leftarrow> [0..<f]. a ! k * (replicate f (replicate f (0::real)) ! k) ! j)
               [0..<f] = replicate f 0" for a :: "real list"
    by (simp add: list_eq_iff_nth_eq)
  then show ?thesis by (simp add: dot_def)
qed

lemma add_zero_row: "length r = f \<Longrightarrow> map2 (+) (replicate f (0::real)) r = r"
  by (rule nth_equalityI) simp_all

lemma add_zero_rows:
  "\<forall>r \<in> set D. length r = f \<Longrightarrow> length Z = length D \<Longrightarrow>
   add (map (\<lambda>a. replicate f 0) Z) D = D"
  unfolding add_def
  by (rule nth_equalityI) (simp_all add: add_zero_row)

lemma choice_single:
  "0 \<le> k \<Longrightarrow> choice g [i] k = (Inr (replicate (nat k) i), snd (randint g 1 (nat k)))"
  by (simp add: choice_def randint_def map_replicate_const comp_def)

lemma flatnonzero_eq_nth: "i \<in> set (flatnonzero_eq y c) \<Longrightarrow> i < length y \<and> y ! i = c"
  by (simp add: set_flatnonzero_eq)

lemma smoothing_matrix_Inr:
  assumes "smoothing_matrix sh X c tci = Inr M"
  shows "\<exists>d s. sh = Some d \<and> map_of d c = Some s \<and> rows X \<noteq> [] \<and>
           (\<forall>i \<in> set tci. i < length (rows X)) \<and>
           M = diagflat (map (\<lambda>v. s *
                 ((4 / real ((snd (shape X) + 2) * length (rows X))) powr
                    (1 / real (snd (shape X) + 4))) * v)
                 (std (snd (shape X)) (map (\<lambda>i. rows X ! i) tci)))"
  using assms
  by (auto simp: smoothing_matrix_def smoothing_constant_def safe_indexing_def shape_def
        Let_def sqrt_mean_variance_axis
        split: sum.splits option.splits if_splits list.splits)

subsection \<open>The smoothed block\<close>

lemma example_smoothing_matrix:
  "smoothing_matrix (Some [(1, 1), (2, 1)]) example_X (1 :: nat) (flatnonzero_eq example_y 1)
     = Inr [[(4 / 15) powr (1 / 5)]]"
  by (simp add: smoothing_matrix_def shape_def smoothing_constant_def safe_indexing_def
        flatnonzero_eq_def issparse_def std_def variance_def mean_def column_def diagflat_def
        Let_def)

lemma example_smoothed_run:
  "fit_resample example_numpy (example_sampler\<lparr>smoothed_bootstrap := True\<rparr>)
     example_X example_y
   = (Inr (\<lparr>storage = ndarray,
            rows = [[10], [11], [12], [13], [14], [11 + (4 / 15) powr (1 / 5)], [12], [12]]\<rparr>,
           [0, 1, 2, 1, 0, 1, 2, 2]),
      example_sampler\<lparr>smoothed_bootstrap := True, shrinkage_attr := Some [(1, 1), (2, 1)],
        sample_indices_attr := Some [0, 1, 2, 3, 4, 1, 2, 2]\<rparr>,
      example_numpy)"
  by (simp add: fit_resample_def validate_shrinkage_def check_random_state_def shape_def
        resample_class_def flatnonzero_eq_def choice_def randint_def safe_indexing_def
        fancy_index_def vstack_def leave_random_state_def Let_def numeral_2_eq_2
        smoothed_block_def smoothing_matrix_def smoothing_constant_def issparse_def
        std_def variance_def mean_def column_def diagflat_def dot_def add_def randn_def)

lemma smoothed_block_Inr_rows:
  assumes "smoothed_block sh X c tci idx k g = (Inr Xn, g')"
  shows "\<exists>M. smoothing_matrix sh X c tci = Inr M \<and>
           (\<forall>i \<in> set idx. i < length (rows X)) \<and>
           Xn = \<lparr>storage = (if issparse X then csr else ndarray),
                 rows = add (dot (fst (randn g (nat k) (snd (shape X)))) M)
                          (map (\<lambda>i. rows X ! i) idx)\<rparr> \<and>
           g' = snd (randn g (nat k) (snd (shape X)))"
  using assms
  by (auto simp: smoothed_block_def safe_indexing_def Let_def
           split: sum.splits prod.splits if_splits)

text \<open>
  C1, as the code has it. Whenever the smoothed block of a class \<open>c\<close> is produced, its rows
  are the donor rows plus standard-normal draws multiplied by the diagonal matrix of
  \<open>shrinkage[c] * constant * std\<close>, where \<open>std\<close> is the per-feature standard deviation of
  the rows of class \<open>c\<close> and \<open>constant = (4 / ((f + 2) * n)) ^ (1 / (f + 4))\<close> with \<open>f\<close> the
  number of feature columns and \<open>n\<close> the number of rows of the whole data set
  (\<open>X.shape[0]\<close>), not of the class.
\<close>

theorem smoothing_constant_uses_total_rows:
  assumes "smoothed_block sh X c (flatnonzero_eq y c) idx k g = (Inr Xn, g')"
  shows "\<exists>d s. sh = Some d \<and> map_of d c = Some s \<and>
           rows Xn =
             add (dot (fst (randn g (nat k) (snd (shape X))))
                    (diagflat (map (\<lambda>v. s *
                        ((4 / real ((snd (shape X) + 2) * length (rows X))) powr
                           (1 / real (snd (shape X) + 4))) * v)
                        (std (snd (shape X))
                           (map (\<lambda>i. rows X ! i) (flatnonzero_eq y c))))))
               (map (\<lambda>i. rows X ! i) idx)"
proof -
  from smoothed_block_Inr_rows [OF assms] obtain M where
    m: "smoothing_matrix sh X c (flatnonzero_eq y c) = Inr M"
    and x: "Xn = \<lparr>storage = (if issparse X then csr else ndarray),
                 rows = add (dot (fst (randn g (nat k) (snd (shape X)))) M)
                          (map (\<lambda>i. rows X ! i) idx)\<rparr>"
    by blast
  from smoothing_matrix_Inr [OF m] obtain d s where
    "sh = Some d" "map_of d c = Some s"
    "M = diagflat (map (\<lambda>v. s *
                 ((4 / real ((snd (shape X) + 2) * length (rows X))) powr
                    (1 / real (snd (shape X) + 4))) * v)
                 (std (snd (shape X)) (map (\<lambda>i. rows X ! i) (flatnonzero_eq y c))))"
    by blast
  then show ?thesis using x by simp
qed

lemma example_smoothed_block:
  "smoothed_block (Some [(1, 1), (2, 1)]) example_X (1 :: nat) (flatnonzero_eq example_y 1)
       [1] 1 \<lparr>ints = (\<lambda>k. k), normals = (\<lambda>k. 1)\<rparr>
     = (Inr \<lparr>storage = ndarray, rows = [[11 + (4 / 15) powr (1 / 5)]]\<rparr>,
        \<lparr>ints = (\<lambda>k. k), normals = (\<lambda>k. 1)\<rparr>)"
  using example_smoothing_matrix
  by (simp add: smoothed_block_def shape_def safe_indexing_def issparse_def randn_def
        dot_def add_def)

theorem smoothing_constant_uses_total_rows_witness:
  "smoothed_block (Some [(1, 1), (2, 1)]) example_X (1 :: nat) (flatnonzero_eq example_y 1)
       [1] 1 \<lparr>ints = (\<lambda>k. k), normals = (\<lambda>k. 1)\<rparr>
     = (Inr \<lparr>storage = ndarray, rows = [[11 + (4 / 15) powr (1 / 5)]]\<rparr>,
        \<lparr>ints = (\<lambda>k. k), normals = (\<lambda>k. 1)\<rparr>) \<and>
   [[11 + (4 / 15) powr (1 / 5)]] =
     add (dot (fst (randn \<lparr>ints = (\<lambda>k. k), normals = (\<lambda>k. 1)\<rparr> (nat 1)
                      (snd (shape example_X))))
            (diagflat (map (\<lambda>v. 1 *
                ((4 / real ((snd (shape example_X) + 2) * length (rows example_X))) powr
                   (1 / real (snd (shape example_X) + 4))) * v)
                (std (snd (shape example_X))
                   (map (\<lambda>i. rows example_X ! i) (flatnonzero_eq example_y 1))))))
       (map (\<lambda>i. rows example_X ! i) [1])"
proof -
  from smoothing_constant_uses_total_rows [OF example_smoothed_block]
  obtain d s where
    d: "Some [(1 :: nat, 1 :: real), (2, 1)] = Some d" "map_of d 1 = Some s"
    and r: "rows \<lparr>storage = ndarray, rows = [[11 + (4 / 15) powr (1 / 5)]]\<rparr> =
      add (dot (fst (randn \<lparr>ints = (\<lambda>k. k), normals = (\<lambda>k. 1)\<rparr> (nat 1)
                      (snd (shape example_X))))
            (diagflat (map (\<lambda>v. s *
                ((4 / real ((snd (shape example_X) + 2) * length (rows example_X))) powr
                   (1 / real (snd (shape example_X) + 4))) * v)
                (std (snd (shape example_X))
                   (map (\<lambda>i. rows example_X ! i) (flatnonzero_eq example_y 1))))))
       (map (\<lambda>i. rows example_X ! i) [1])"
    by blast
  from d have "s = 1" by auto
  then show ?thesis using r example_smoothed_block by simp
qed

text \<open>
  C1, as the specification states it, fails: class 1 of the example data has 2 of the 5
  rows and one feature, and the entry of its smoothing matrix (shrinkage 1, standard
  deviation 1) is \<open>(4 / (3 * 5)) ^ (1 / 5)\<close>, which is not \<open>(4 / (3 * 2)) ^ (1 / 5)\<close>; the
  synthesized row of the run is the donor 11 plus that entry.
\<close>

theorem smoothing_constant_class_rows_counterexample:
  "length (flatnonzero_eq example_y 1) = 2 \<and> shape example_X = (5, 1) \<and>
   smoothing_matrix (Some [(1, 1), (2, 1)]) example_X (1 :: nat) (flatnonzero_eq example_y 1)
     = Inr [[(4 / (3 * 5)) powr (1 / 5)]] \<and>
   (4 / (3 * 5) :: real) powr (1 / 5) \<noteq> (4 / (3 * 2)) powr (1 / 5) \<and>
   fst (fit_resample example_numpy (example_sampler\<lparr>smoothed_bootstrap := True\<rparr>)
          example_X example_y)
     = Inr (\<lparr>storage = ndarray,
             rows = [[10], [11], [12], [13], [14], [11 + (4 / (3 * 5)) powr (1 / 5)],
                     [12], [12]]\<rparr>,
            [0, 1, 2, 1, 0, 1, 2, 2])"
proof -
  have "(4 / (3 * 5) :: real) powr (1 / 5) < (4 / (3 * 2)) powr (1 / 5)"
    by (rule powr_less_mono2) simp_all
  then have n: "(4 / (3 * 5) :: real) powr (1 / 5) \<noteq> (4 / (3 * 2)) powr (1 / 5)" by simp
  have l: "length (flatnonzero_eq example_y 1) = 2" by (simp add: flatnonzero_eq_def)
  have sh: "shape example_X = (5, 1)" by (simp add: shape_def)
  show ?thesis
    using n l sh example_smoothing_matrix example_smoothed_run by simp
qed

text \<open>
  C6. With smoothing on, a class with exactly one observed row has the zero vector as its
  per-feature standard deviation, and its step of the loop raises nothing: it appends
  \<open>k\<close> copies of the index, of the row itself, unchanged, and of the label. A run whose
  strategy names such a class alone returns the original rows followed by \<open>k\<close> exact
  copies of that row.
\<close>

theorem single_row_class_exact_copies:
  assumes "smoothed_bootstrap self" "flatnonzero_eq y c = [i]" "length (rows X) = length y"
    "\<forall>r \<in> set (rows X). length r = snd (shape X)" "0 \<le> k"
  shows "std (snd (shape X)) (map (\<lambda>j. rows X ! j) (flatnonzero_eq y c))
           = replicate (snd (shape X)) 0 \<and>
         (shrinkage_attr self = Some d \<and> map_of d c = Some s \<longrightarrow>
            (\<exists>g'. resample_class self X y (c, k) (si, Xs, ys) g
                = (Inr (si @ replicate (nat k) i,
                        Xs @ [\<lparr>storage = (if issparse X then csr else ndarray),
                               rows = replicate (nat k) (rows X ! i)\<rparr>],
                        ys @ [replicate (nat k) c]), g'))) \<and>
         (sampling_strategy_attr self = [(c, k)] \<and>
          (\<forall>m. shrinkage self = Dict m \<longrightarrow> c \<in> fst ` set m) \<longrightarrow>
            fst (fit_resample np self X y)
              = Inr (\<lparr>storage = storage X, rows = rows X @ replicate (nat k) (rows X ! i)\<rparr>,
                     y @ replicate (nat k) c))"
proof -
  let ?f = "snd (shape X)"
  have iy: "i < length y \<and> y ! i = c"
    using flatnonzero_eq_nth [of i y c] assms(2) by simp
  then have ix: "i < length (rows X)" using assms(3) by simp
  then have x: "rows X \<noteq> []" by auto
  have len: "length (rows X ! i) = ?f" using assms(4) ix by simp
  have sd: "std ?f (map (\<lambda>j. rows X ! j) (flatnonzero_eq y c)) = replicate ?f 0"
    using assms(2) by (simp add: std_single)
  have step: "\<exists>g'. resample_class self' X y (c, k) (si', Xs', ys') gg
                = (Inr (si' @ replicate (nat k) i,
                        Xs' @ [\<lparr>storage = (if issparse X then csr else ndarray),
                               rows = replicate (nat k) (rows X ! i)\<rparr>],
                        ys' @ [replicate (nat k) c]), g')"
    if sb: "smoothed_bootstrap self'" and d: "shrinkage_attr self' = Some d'"
      "map_of d' c = Some s'"
    for self' :: "'a RandomOverSampler" and d' s' si' Xs' ys' gg
  proof -
    have ch: "choice gg (flatnonzero_eq y c) k
                = (Inr (replicate (nat k) i), snd (randint gg 1 (nat k)))"
      using assms(2,5) by (simp add: choice_single)
    let ?g1 = "snd (randint gg 1 (nat k))"
    have M: "smoothing_matrix (Some d') X c [i] = Inr (replicate ?f (replicate ?f 0))"
      using x ix d(2)
      by (simp add: smoothing_matrix_def smoothing_constant_def safe_indexing_def Let_def
            sqrt_mean_variance_axis std_single diagflat_zero map_replicate_const
            split: prod.splits)
         (simp add: shape_def)
    have Z: "length (fst (randn ?g1 (nat k) ?f)) = nat k" by (simp add: randn_def)
    have "add (dot (fst (randn ?g1 (nat k) ?f)) (replicate ?f (replicate ?f 0)))
            (replicate (nat k) (rows X ! i)) = replicate (nat k) (rows X ! i)"
      unfolding dot_zero using len Z by (intro add_zero_rows) simp_all
    then have blk: "smoothed_block (Some d') X c [i] (replicate (nat k) i) k ?g1
          = (Inr \<lparr>storage = (if issparse X then csr else ndarray),
                  rows = replicate (nat k) (rows X ! i)\<rparr>,
             snd (randn ?g1 (nat k) ?f))"
      using M ix
      by (simp add: smoothed_block_def safe_indexing_def map_replicate_const
            case_prod_beta)
    have fy: "fancy_index y (replicate (nat k) i) = Inr (replicate (nat k) c)"
      using iy by (simp add: fancy_index_def map_replicate_const)
    show ?thesis
      using sb ch blk fy d(1) assms(2)
      by (simp add: resample_class_def Let_def)
  qed
  have run: "fst (fit_resample np self X y)
              = Inr (\<lparr>storage = storage X, rows = rows X @ replicate (nat k) (rows X ! i)\<rparr>,
                     y @ replicate (nat k) c)"
    if st: "sampling_strategy_attr self = [(c, k)]"
      and cov: "\<forall>m. shrinkage self = Dict m \<longrightarrow> c \<in> fst ` set m"
  proof -
    from validate_shrinkage_covers [OF assms(1)] st cov obtain self1 d1 where
      v: "validate_shrinkage self = Inr self1" "shrinkage_attr self1 = Some d1"
        "map_of d1 c \<noteq> None"
      by auto
    then obtain s1 where s1: "map_of d1 c = Some s1" by auto
    note f = validate_shrinkage_Inr [OF v(1)]
    have sb: "smoothed_bootstrap self1" using f assms(1) by simp
    from step [OF sb v(2) s1] obtain g' where
      "resample_class self1 X y (c, k) ([0..<fst (shape X)], [X], [y])
         (check_random_state np (random_state self))
       = (Inr ([0..<fst (shape X)] @ replicate (nat k) i,
               [X] @ [\<lparr>storage = (if issparse X then csr else ndarray),
                        rows = replicate (nat k) (rows X ! i)\<rparr>],
               [y] @ [replicate (nat k) c]), g')"
      by blast
    then show ?thesis
      using v(1) f st
      by (simp add: fit_resample_def Let_def vstack_def split: prod.splits)
  qed
  show ?thesis using sd step [OF assms(1)] run by blast
qed

theorem single_row_class_exact_copies_witness:
  "flatnonzero_eq example_y 2 = [2] \<and>
   std (snd (shape example_X)) (map (\<lambda>j. rows example_X ! j) (flatnonzero_eq example_y 2))
     = [0] \<and>
   (\<exists>g'. resample_class
            (example_sampler\<lparr>smoothed_bootstrap := True, sampling_strategy_attr := [(2, 2)],
               shrinkage_attr := Some [(2, 1)]\<rparr>)
            example_X example_y (2, 2) ([0, 1, 2, 3, 4], [example_X], [example_y])
            \<lparr>ints = (\<lambda>k. k), normals = (\<lambda>k. 1)\<rparr>
          = (Inr ([0, 1, 2, 3, 4, 2, 2],
                  [example_X, \<lparr>storage = ndarray, rows = [[12], [12]]\<rparr>],
                  [example_y, [2, 2]]), g')) \<and>
   fst (fit_resample example_numpy
          (example_sampler\<lparr>smoothed_bootstrap := True, sampling_strategy_attr := [(2, 2)],
             shrinkage_attr := Some [(2, 1)]\<rparr>)
          example_X example_y)
     = Inr (\<lparr>storage = ndarray, rows = [[10], [11], [12], [13], [14], [12], [12]]\<rparr>,
            [0, 1, 2, 1, 0, 2, 2])"
proof -
  let ?self = "example_sampler\<lparr>smoothed_bootstrap := True,
                 sampling_strategy_attr := [(2, 2)], shrinkage_attr := Some [(2, 1)]\<rparr>"
  have h1: "smoothed_bootstrap ?self" by simp
  have h2: "flatnonzero_eq example_y 2 = [2]" by (simp add: flatnonzero_eq_def)
  have h3: "length (rows example_X) = length example_y" by simp
  have h4: "\<forall>r \<in> set (rows example_X). length r = snd (shape example_X)"
    by (simp add: shape_def)
  have h5: "(0 :: int) \<le> 2" by simp
  note t = single_row_class_exact_copies [OF h1 h2 h3 h4 h5,
      of "[(2, 1)]" 1 "[0, 1, 2, 3, 4]" "[example_X]" "[example_y]"
         "\<lparr>ints = (\<lambda>k. k), normals = (\<lambda>k. 1)\<rparr>" example_numpy]
  have p1: "shrinkage_attr ?self = Some [(2, 1)] \<and> map_of [(2 :: nat, 1 :: real)] 2 = Some 1"
    by simp
  have p2: "sampling_strategy_attr ?self = [(2, 2)] \<and>
            (\<forall>m. shrinkage ?self = Dict m \<longrightarrow> 2 \<in> fst ` set m)"
    by simp
  from t p1 p2 have
    a: "std (snd (shape example_X))
          (map (\<lambda>j. rows example_X ! j) (flatnonzero_eq example_y 2))
        = replicate (snd (shape example_X)) 0"
    and b: "\<exists>g'. resample_class ?self example_X example_y (2, 2)
                ([0, 1, 2, 3, 4], [example_X], [example_y])
                \<lparr>ints = (\<lambda>k. k), normals = (\<lambda>k. 1)\<rparr>
          = (Inr ([0, 1, 2, 3, 4] @ replicate (nat 2) 2,
                  [example_X] @ [\<lparr>storage = (if issparse example_X then csr else ndarray),
                               rows = replicate (nat 2) (rows example_X ! 2)\<rparr>],
                  [example_y] @ [replicate (nat 2) 2]), g')"
    and c: "fst (fit_resample example_numpy ?self example_X example_y)
              = Inr (\<lparr>storage = storage example_X,
                      rows = rows example_X @ replicate (nat 2) (rows example_X ! 2)\<rparr>,
                     example_y @ replicate (nat 2) 2)"
    by blast+
  have e: "replicate 2 x = [x, x]" for x :: 'b
    by (simp add: numeral_2_eq_2)
  have a': "std (snd (shape example_X))
          (map (\<lambda>j. rows example_X ! j) (flatnonzero_eq example_y 2)) = [0]"
    using a by (simp add: shape_def)
  have b': "\<exists>g'. resample_class ?self example_X example_y (2, 2)
                ([0, 1, 2, 3, 4], [example_X], [example_y])
                \<lparr>ints = (\<lambda>k. k), normals = (\<lambda>k. 1)\<rparr>
          = (Inr ([0, 1, 2, 3, 4, 2, 2],
                  [example_X, \<lparr>storage = ndarray, rows = [[12], [12]]\<rparr>],
                  [example_y, [2, 2]]), g')"
    using b by (simp add: e issparse_def)
  have c': "fst (fit_resample example_numpy ?self example_X example_y)
     = Inr (\<lparr>storage = ndarray, rows = [[10], [11], [12], [13], [14], [12], [12]]\<rparr>,
            [0, 1, 2, 1, 0, 2, 2])"
    using c by (simp add: e)
  show ?thesis using h2 a' b' c' by blast
qed

subsection \<open>Order of the returned rows\<close>














end
